theory Spec2Isabelle
  imports Main "HOL-Library.Sublist" "HOL-Library.AList"
begin

section \<open>Python strings and paths\<close>

text \<open>
  The program is \<^verbatim>\<open>src/md2conf/application.py\<close>. Texts are Python \<^verbatim>\<open>str\<close> values,
  modelled as \<^typ>\<open>string\<close>; the line feed is written \<open>\<newline>\<close>.

  \<^verbatim>\<open>str.startswith\<close> is \<^const>\<open>prefix\<close>. \<^verbatim>\<open>hay.find(needle, start)\<close> is the lowest index
  \<open>i \<ge> start\<close> at which \<open>needle\<close> occurs in \<open>hay\<close>, and \<open>-1\<close> when there is none.
\<close>

primrec find_prefix :: "string \<Rightarrow> string \<Rightarrow> nat \<Rightarrow> int" where
  "find_prefix needle [] n = (if needle = [] then int n else - 1)"
| "find_prefix needle (c # cs) n =
     (if prefix needle (c # cs) then int n else find_prefix needle cs (Suc n))"

definition py_find :: "string \<Rightarrow> string \<Rightarrow> nat \<Rightarrow> int" where
  "py_find hay needle start =
     (if start \<le> length hay then find_prefix needle (drop start hay) start else - 1)"

text \<open>
  The slices \<^verbatim>\<open>s[:i]\<close> and \<^verbatim>\<open>s[i:]\<close>: a negative index counts from the end, and every
  index is clipped to the text.
\<close>

definition slice_index :: "string \<Rightarrow> int \<Rightarrow> nat" where
  "slice_index s i = (if i < 0 then nat (int (length s) + i) else nat i)"

definition slice_to :: "string \<Rightarrow> int \<Rightarrow> string" where
  "slice_to s i = take (slice_index s i) s"

definition slice_from :: "string \<Rightarrow> int \<Rightarrow> string" where
  "slice_from s i = drop (slice_index s i) s"

text \<open>\<^verbatim>\<open>sep.join(parts)\<close>.\<close>

fun join :: "string \<Rightarrow> string list \<Rightarrow> string" where
  "join sep [] = []"
| "join sep [x] = x"
| "join sep (x # y # ys) = x @ sep @ join sep (y # ys)"

text \<open>
  A \<^verbatim>\<open>Path\<close> is the list of its components, so that \<^verbatim>\<open>p / name\<close> is \<open>p @ [name]\<close> and
  \<^verbatim>\<open>p.parent\<close> is \<^const>\<open>butlast\<close>. Paths are compared component by component, as
  \<^verbatim>\<open>PurePosixPath\<close> does (case-sensitive).
\<close>

type_synonym path = "string list"

section \<open>The Local State Writer\<close>

text \<open>
  \<^verbatim>\<open>Application._update_markdown\<close> (lines 240-266). \<open>update_markdown_text\<close> is the text
  that the method writes: the pieces collected in \<^verbatim>\<open>content\<close>, joined by line feeds.
  A space key is written when it is truthy (neither \<^verbatim>\<open>None\<close> nor empty).
\<close>

definition page_id_marker :: "string \<Rightarrow> string" where
  "page_id_marker page_id = ''<!-- confluence-page-id: '' @ page_id @ '' -->''"

definition space_key_marker :: "string \<Rightarrow> string" where
  "space_key_marker space_key = ''<!-- confluence-space-key: '' @ space_key @ '' -->''"

definition update_markdown_text :: "string \<Rightarrow> string \<Rightarrow> string option \<Rightarrow> string" where
  "update_markdown_text document page_id space_key =
     (let (index, content) =
            (if prefix ''---\<newline>'' document
             then (let index = py_find document ''\<newline>---\<newline>'' 4 + 4
                   in (index, [slice_to document index]))
             else (0, []));
          content = content @ [page_id_marker page_id];
          content = (case space_key of
                       None \<Rightarrow> content
                     | Some k \<Rightarrow> if k \<noteq> [] then content @ [space_key_marker k] else content);
          content = content @ [slice_from document index]
      in join ''\<newline>'' content)"

text \<open>The marker lines that the writer adds, each ended by its line feed.\<close>

definition marker_lines :: "string \<Rightarrow> string option \<Rightarrow> string" where
  "marker_lines page_id space_key =
     page_id_marker page_id @ ''\<newline>'' @
     (case space_key of
        None \<Rightarrow> []
      | Some k \<Rightarrow> if k \<noteq> [] then space_key_marker k @ ''\<newline>'' else [])"

section \<open>Data model\<close>

text \<open>
  The classes that \<^verbatim>\<open>application.py\<close> imports from the \<^verbatim>\<open>api\<close> and \<^verbatim>\<open>converter\<close>
  modules, with the fields that the program reads: \<^verbatim>\<open>ConfluenceQualifiedID\<close>,
  \<^verbatim>\<open>ConfluencePage\<close>, \<^verbatim>\<open>ConfluencePageMetadata\<close> and \<^verbatim>\<open>ConfluenceDocument\<close>. Of a
  document the program reads \<^verbatim>\<open>id\<close>, \<^verbatim>\<open>images\<close>, the items of \<^verbatim>\<open>embedded_images\<close> and
  the result of \<^verbatim>\<open>xhtml()\<close>.
\<close>

record qualified_id =
  page_id :: string
  space_key :: "string option"

record confluence_page =
  cp_id :: string
  cp_space_key :: "string option"
  cp_title :: "string option"

record metadata =
  md_domain :: string
  md_base_path :: string
  md_page_id :: string
  md_space_key :: string
  md_title :: string

record document =
  doc_id :: qualified_id
  images :: "path list"
  embedded_images :: "(string \<times> string) list"
  xhtml :: string

text \<open>What \<^verbatim>\<open>yaml.safe_load\<close> returns: a text, a mapping, or anything else.\<close>

datatype yaml = YStr string | YDict "(string \<times> yaml) list" | YOther

text \<open>
  Every \<^verbatim>\<open>raise\<close> is a value: the \<^verbatim>\<open>ValueError\<close> of line 170, which names the file, the
  error of \<^verbatim>\<open>open\<close>, and the errors that the YAML parser, the remote session and the
  document converter raise, which the program lets through.
\<close>

datatype error =
    File_not_found path
  | Missing_parent path
  | YAML_error string
  | Remote_error string
  | Document_error string

text \<open>
  What the run leaves behind is a trace: the calls of the remote session (with the space
  of the session at the call) and the records given to \<^verbatim>\<open>LOGGER\<close>.
\<close>

datatype api_call =
    GetPage string "string option"
  | GetOrCreatePage string string "string option"
  | UploadAttachment string path string "string option"
  | UpdatePage string string

datatype log_record =
    Synchronizing_directory path
  | Indexed_pages nat
  | Synchronizing_page path
  | Indexing_directory path
  | Indexed_parent path metadata
  | Indexed_doc path metadata
  | Generated_document string

datatype event = Call string api_call | Log log_record

text \<open>
  The state: the texts of the local files, the remote wiki (opaque), the space of the
  session (\<^verbatim>\<open>api.space_key\<close>) and the trace.
\<close>

record 'r state =
  files :: "path \<rightharpoonup> string"
  remote :: 'r
  session_space :: string
  trace :: "event list"

text \<open>
  The collaborators that are not part of \<^verbatim>\<open>application.py\<close> are parameters: the
  operations of \<^verbatim>\<open>ConfluenceSession\<close> (each takes the remote wiki and the space of the
  session, and returns the wiki with a page or an error message), \<^verbatim>\<open>extract_frontmatter\<close>,
  \<^verbatim>\<open>yaml.safe_load\<close>, the constructor of \<^verbatim>\<open>ConfluenceDocument\<close>, \<^verbatim>\<open>attachment_name\<close> and
  \<^verbatim>\<open>Matcher.is_excluded\<close> (of the matcher of a directory).
\<close>

record 'r env =
  api_domain :: string
  api_base_path :: string
  root_page_id :: "string option"
  api_get_page :: "'r \<Rightarrow> string \<Rightarrow> string \<Rightarrow> string option \<Rightarrow> (string + confluence_page) \<times> 'r"
  api_get_or_create_page ::
    "'r \<Rightarrow> string \<Rightarrow> string \<Rightarrow> string \<Rightarrow> string option \<Rightarrow> (string + confluence_page) \<times> 'r"
  api_upload_attachment ::
    "'r \<Rightarrow> string \<Rightarrow> string \<Rightarrow> path \<Rightarrow> string \<Rightarrow> string option \<Rightarrow> (string + unit) \<times> 'r"
  api_update_page :: "'r \<Rightarrow> string \<Rightarrow> string \<Rightarrow> string \<Rightarrow> (string + unit) \<times> 'r"
  extract_frontmatter :: "string \<Rightarrow> string option \<times> string"
  safe_load :: "string \<Rightarrow> string + yaml"
  load_document :: "(path \<rightharpoonup> string) \<Rightarrow> path \<Rightarrow> (path \<times> metadata) list \<Rightarrow> string + document"
  attachment_name :: "path \<Rightarrow> string"
  is_excluded :: "path \<Rightarrow> string \<Rightarrow> bool \<Rightarrow> bool"

definition log_record :: "log_record \<Rightarrow> 'r state \<Rightarrow> 'r state" where
  "log_record l st = st\<lparr>trace := trace st @ [Log l]\<rparr>"

text \<open>
  A call of the session: the call is recorded, the wiki answers, and an error of the
  session is raised to the caller.
\<close>

definition remote_call ::
  "api_call \<Rightarrow> ('r \<Rightarrow> (string + 'a) \<times> 'r) \<Rightarrow> 'r state \<Rightarrow> (error + 'a) \<times> 'r state" where
  "remote_call c operation st =
     (case operation (remote st) of
        (answer, r) \<Rightarrow>
          (case answer of Inl msg \<Rightarrow> Inl (Remote_error msg) | Inr a \<Rightarrow> Inr a,
           st\<lparr>remote := r, trace := trace st @ [Call (session_space st) c]\<rparr>))"

definition get_page :: "'r env \<Rightarrow> string \<Rightarrow> string option \<Rightarrow> 'r state \<Rightarrow> (error + confluence_page) \<times> 'r state" where
  "get_page env pid sk st =
     remote_call (GetPage pid sk) (\<lambda>r. api_get_page env r (session_space st) pid sk) st"

definition get_or_create_page_remote ::
  "'r env \<Rightarrow> string \<Rightarrow> string \<Rightarrow> string option \<Rightarrow> 'r state \<Rightarrow> (error + confluence_page) \<times> 'r state" where
  "get_or_create_page_remote env title parent sk st =
     remote_call (GetOrCreatePage title parent sk)
       (\<lambda>r. api_get_or_create_page env r (session_space st) title parent sk) st"

definition upload_attachment ::
  "'r env \<Rightarrow> string \<Rightarrow> path \<Rightarrow> string \<Rightarrow> string option \<Rightarrow> 'r state \<Rightarrow> (error + unit) \<times> 'r state" where
  "upload_attachment env pid source name raw_data st =
     remote_call (UploadAttachment pid source name raw_data)
       (\<lambda>r. api_upload_attachment env r (session_space st) pid source name raw_data) st"

definition update_page :: "'r env \<Rightarrow> string \<Rightarrow> string \<Rightarrow> 'r state \<Rightarrow> (error + unit) \<times> 'r state" where
  "update_page env pid content st =
     remote_call (UpdatePage pid content) (\<lambda>r. api_update_page env r (session_space st) pid content) st"

text \<open>
  Modelled from the spec: \<^verbatim>\<open>switch_space\<close> of the session (module \<^verbatim>\<open>api\<close>, not part of
  \<^verbatim>\<open>application.py\<close>), "a scoped context": the operations of the body "execute against
  that space (scoped, reverted after)".
\<close>

definition switch_space ::
  "string \<Rightarrow> ('r state \<Rightarrow> (error + 'a) \<times> 'r state) \<Rightarrow> 'r state \<Rightarrow> (error + 'a) \<times> 'r state" where
  "switch_space new_space_key body st =
     (case body (st\<lparr>session_space := new_space_key\<rparr>) of
        (result, st') \<Rightarrow> (result, st'\<lparr>session_space := session_space st\<rparr>))"

section \<open>The identity marker\<close>

text \<open>
  Modelled from the spec: \<^verbatim>\<open>extract_qualified_id\<close> and \<^verbatim>\<open>read_qualified_id\<close> (module
  \<^verbatim>\<open>converter\<close>, not part of \<^verbatim>\<open>application.py\<close>). The spec has "identity marker comments
  of the form \<^verbatim>\<open><!-- confluence-page-id: ID -->\<close> and \<^verbatim>\<open><!-- confluence-space-key: KEY -->\<close>"
  and "parse the leading qualified-identity marker (a structured comment pair: page id,
  optional space key) out of the text if present". Here the leading marker is the first
  comment of that form in the text, a value is a non-empty run of characters other than
  white space, and the text that is returned is the text without the comment.
\<close>

definition value_char :: "char \<Rightarrow> bool" where
  "value_char c \<longleftrightarrow> c \<noteq> CHR '' '' \<and> c \<noteq> CHR 0x0A \<and> c \<noteq> CHR 0x09 \<and> c \<noteq> CHR 0x0D"

definition parse_comment :: "string \<Rightarrow> string \<Rightarrow> (string \<times> string) option" where
  "parse_comment key s =
     (if prefix (''<!-- '' @ key @ '': '') s
      then (let r = drop (length key + 7) s;
                v = takeWhile value_char r;
                r' = dropWhile value_char r
            in if v \<noteq> [] \<and> prefix '' -->'' r' then Some (v, drop 4 r') else None)
      else None)"

text \<open>The comment that carries a value, and the values that can be read back.\<close>

definition marker_comment :: "string \<Rightarrow> string \<Rightarrow> string" where
  "marker_comment key v = ''<!-- '' @ key @ '': '' @ v @ '' -->''"

definition wf_value :: "string \<Rightarrow> bool" where
  "wf_value v \<longleftrightarrow> v \<noteq> [] \<and> list_all value_char v"

fun extract_value :: "string \<Rightarrow> string \<Rightarrow> string option \<times> string" where
  "extract_value key [] = (None, [])"
| "extract_value key (c # cs) =
     (case parse_comment key (c # cs) of
        Some (v, rest) \<Rightarrow> (Some v, rest)
      | None \<Rightarrow> (case extract_value key cs of (v, t) \<Rightarrow> (v, c # t)))"

definition extract_qualified_id :: "string \<Rightarrow> qualified_id option \<times> string" where
  "extract_qualified_id text =
     (case extract_value ''confluence-page-id'' text of
        (None, t) \<Rightarrow> (None, t)
      | (Some pid, t) \<Rightarrow>
          (case extract_value ''confluence-space-key'' t of
             (sk, t') \<Rightarrow> (Some \<lparr>page_id = pid, space_key = sk\<rparr>, t')))"

definition read_qualified_id :: "(path \<rightharpoonup> string) \<Rightarrow> path \<Rightarrow> error + qualified_id option" where
  "read_qualified_id fs absolute_path =
     (case fs absolute_path of
        None \<Rightarrow> Inl (File_not_found absolute_path)
      | Some text \<Rightarrow> Inr (fst (extract_qualified_id text)))"

section \<open>The Identity Resolver\<close>

text \<open>\<^verbatim>\<open>Application._update_markdown\<close>: the file is replaced by the new text.\<close>

definition update_markdown :: "path \<Rightarrow> string \<Rightarrow> string \<Rightarrow> string option \<Rightarrow> 'r state \<Rightarrow> 'r state" where
  "update_markdown path document pid sk st =
     st\<lparr>files := (files st)(path \<mapsto> update_markdown_text document pid sk)\<rparr>"

text \<open>
  \<^verbatim>\<open>Path.stem\<close>: the last component without its last suffix; a name that starts with its
  only dot, or ends with a dot, has no suffix.
\<close>

definition rfind_dot :: "string \<Rightarrow> int" where
  "rfind_dot name =
     (if CHR ''.'' \<in> set name
      then int (length name) - 1 - int (length (takeWhile (\<lambda>c. c \<noteq> CHR ''.'') (rev name)))
      else - 1)"

definition stem :: "path \<Rightarrow> string" where
  "stem p =
     (let name = (if p = [] then [] else last p);
          i = rfind_dot name
      in if 0 < i \<and> i < int (length name) - 1 then slice_to name i else name)"

text \<open>
  \<^verbatim>\<open>Application._create_page\<close> (lines 194-216): the title defaults to the stem of the path,
  the session gets or creates the page under the parent, and the identity of the page is
  written into the file.
\<close>

definition create_page ::
  "'r env \<Rightarrow> path \<Rightarrow> string \<Rightarrow> string option \<Rightarrow> qualified_id \<Rightarrow> 'r state
     \<Rightarrow> (error + confluence_page) \<times> 'r state" where
  "create_page env absolute_path document title parent_id st =
     (let title = (case title of None \<Rightarrow> stem absolute_path | Some t \<Rightarrow> t)
      in case get_or_create_page_remote env title (page_id parent_id) (space_key parent_id) st of
           (Inl e, st1) \<Rightarrow> (Inl e, st1)
         | (Inr confluence_page, st1) \<Rightarrow>
             (Inr confluence_page,
              update_markdown absolute_path document
                (cp_id confluence_page) (cp_space_key confluence_page) st1))"

text \<open>
  Lines 177-180: the \<open>title\<close> of the loaded properties, when they are a mapping and
  the title is a text.
\<close>

definition property_title :: "yaml \<Rightarrow> string option" where
  "property_title properties =
     (case properties of
        YDict items \<Rightarrow>
          (case map_of items ''title'' of
             Some (YStr t) \<Rightarrow> Some t
           | _ \<Rightarrow> None)
      | _ \<Rightarrow> None)"

text \<open>
  Lines 174-180: the title of the front-matter, when no title is supplied. An error of
  \<^verbatim>\<open>yaml.safe_load\<close> is not caught.
\<close>

definition frontmatter_title :: "'r env \<Rightarrow> string option \<Rightarrow> string option \<Rightarrow> error + string option" where
  "frontmatter_title env title frontmatter =
     (case (title, frontmatter) of
        (None, Some fm) \<Rightarrow>
          (case safe_load env fm of
             Inl msg \<Rightarrow> Inl (YAML_error msg)
           | Inr properties \<Rightarrow>
               (case property_title properties of
                  Some t \<Rightarrow> Inr (Some t)
                | None \<Rightarrow> Inr title))
      | _ \<Rightarrow> Inr title)"

text \<open>\<^verbatim>\<open>Application._get_or_create_page\<close> (lines 146-192).\<close>

definition page_metadata_of :: "'r env \<Rightarrow> 'r state \<Rightarrow> confluence_page \<Rightarrow> metadata" where
  "page_metadata_of env st confluence_page =
     \<lparr>md_domain = api_domain env,
      md_base_path = api_base_path env,
      md_page_id = cp_id confluence_page,
      md_space_key = (case cp_space_key confluence_page of
                        None \<Rightarrow> session_space st
                      | Some k \<Rightarrow> if k \<noteq> [] then k else session_space st),
      md_title = (case cp_title confluence_page of None \<Rightarrow> [] | Some t \<Rightarrow> t)\<rparr>"

definition get_or_create_page ::
  "'r env \<Rightarrow> path \<Rightarrow> qualified_id option \<Rightarrow> string option \<Rightarrow> 'r state \<Rightarrow> (error + metadata) \<times> 'r state" where
  "get_or_create_page env absolute_path parent_id title st =
     (case files st absolute_path of
        None \<Rightarrow> (Inl (File_not_found absolute_path), st)
      | Some text \<Rightarrow>
          (let (qualified_id, document) = extract_qualified_id text;
               (frontmatter, document) = extract_frontmatter env document
           in case (case qualified_id of
                      Some q \<Rightarrow> get_page env (page_id q) (space_key q) st
                    | None \<Rightarrow>
                        (case parent_id of
                           None \<Rightarrow> (Inl (Missing_parent absolute_path), st)
                         | Some parent \<Rightarrow>
                             (case frontmatter_title env title frontmatter of
                                Inl e \<Rightarrow> (Inl e, st)
                              | Inr title \<Rightarrow> create_page env absolute_path document title parent st)))
              of (Inl e, st1) \<Rightarrow> (Inl e, st1)
               | (Inr confluence_page, st1) \<Rightarrow> (Inr (page_metadata_of env st1 confluence_page), st1)))"

section \<open>The Page Synchronizer\<close>

text \<open>\<^verbatim>\<open>Application._update_document\<close> (lines 218-238): the two loops, then the update.\<close>

fun upload_images :: "'r env \<Rightarrow> string \<Rightarrow> path \<Rightarrow> path list \<Rightarrow> 'r state \<Rightarrow> (error + unit) \<times> 'r state" where
  "upload_images env pid base_path [] st = (Inr (), st)"
| "upload_images env pid base_path (img # rest) st =
     (case upload_attachment env pid (base_path @ img) (attachment_name env img) None st of
        (Inl e, st1) \<Rightarrow> (Inl e, st1)
      | (Inr _, st1) \<Rightarrow> upload_images env pid base_path rest st1)"

fun upload_embedded_images ::
  "'r env \<Rightarrow> string \<Rightarrow> (string \<times> string) list \<Rightarrow> 'r state \<Rightarrow> (error + unit) \<times> 'r state" where
  "upload_embedded_images env pid [] st = (Inr (), st)"
| "upload_embedded_images env pid ((img, data) # rest) st =
     (case upload_attachment env pid [''EMB'', img] (attachment_name env [img]) (Some data) st of
        (Inl e, st1) \<Rightarrow> (Inl e, st1)
      | (Inr _, st1) \<Rightarrow> upload_embedded_images env pid rest st1)"

definition update_document :: "'r env \<Rightarrow> document \<Rightarrow> path \<Rightarrow> 'r state \<Rightarrow> (error + unit) \<times> 'r state" where
  "update_document env document base_path st =
     (case upload_images env (page_id (doc_id document)) base_path (images document) st of
        (Inl e, st1) \<Rightarrow> (Inl e, st1)
      | (Inr _, st1) \<Rightarrow>
          (case upload_embedded_images env (page_id (doc_id document)) (embedded_images document) st1 of
             (Inl e, st2) \<Rightarrow> (Inl e, st2)
           | (Inr _, st2) \<Rightarrow>
               (let content = xhtml document
                in update_page env (page_id (doc_id document)) content
                     (log_record (Generated_document content) st2))))"

text \<open>
  The events of a complete update of a document, with the session in the space \<open>s\<close>: the
  uploads of the images, the uploads of the embedded images, the record of the generated
  content, and the update of the page.
\<close>

definition upload_events :: "'r env \<Rightarrow> document \<Rightarrow> path \<Rightarrow> string \<Rightarrow> event list" where
  "upload_events env document base_path s =
     map (\<lambda>img. Call s (UploadAttachment (page_id (doc_id document)) (base_path @ img)
                        (attachment_name env img) None)) (images document) @
     map (\<lambda>(img, data). Call s (UploadAttachment (page_id (doc_id document)) [''EMB'', img]
                        (attachment_name env [img]) (Some data))) (embedded_images document)"

definition document_events :: "'r env \<Rightarrow> document \<Rightarrow> path \<Rightarrow> string \<Rightarrow> event list" where
  "document_events env document base_path s =
     upload_events env document base_path s @
     [Log (Generated_document (xhtml document)),
      Call s (UpdatePage (page_id (doc_id document)) (xhtml document))]"

fun is_upload :: "event \<Rightarrow> bool" where
  "is_upload (Call s (UploadAttachment pid source name raw_data)) = True"
| "is_upload e = False"

text \<open>The space in which the document is synchronized (lines 91-95).\<close>

definition document_space :: "document \<Rightarrow> string \<Rightarrow> string" where
  "document_space document default_space =
     (case space_key (doc_id document) of
        None \<Rightarrow> default_space
      | Some k \<Rightarrow> if k \<noteq> [] then k else default_space)"

text \<open>\<^verbatim>\<open>Application._synchronize_page\<close> (lines 81-95).\<close>

definition synchronize_page_priv ::
  "'r env \<Rightarrow> path \<Rightarrow> (path \<times> metadata) list \<Rightarrow> 'r state \<Rightarrow> (error + unit) \<times> 'r state" where
  "synchronize_page_priv env page_path page_metadata st =
     (let base_path = butlast page_path;
          st0 = log_record (Synchronizing_page page_path) st
      in case load_document env (files st0) page_path page_metadata of
           Inl msg \<Rightarrow> (Inl (Document_error msg), st0)
         | Inr document \<Rightarrow>
             (case space_key (doc_id document) of
                None \<Rightarrow> update_document env document base_path st0
              | Some k \<Rightarrow>
                  if k \<noteq> [] then switch_space k (update_document env document base_path) st0
                  else update_document env document base_path st0))"

text \<open>\<^verbatim>\<open>Application.synchronize_page\<close> (lines 55-59): one page, with an empty Identity Map.\<close>

definition synchronize_page :: "'r env \<Rightarrow> path \<Rightarrow> 'r state \<Rightarrow> (error + unit) \<times> 'r state" where
  "synchronize_page env page_path st = synchronize_page_priv env page_path [] st"

section \<open>The Directory Indexer\<close>

text \<open>
  What \<^verbatim>\<open>os.scandir\<close> lists: a file, a directory with its own listing, or something that
  is neither. The listing of a directory does not change during a run (the writer only
  replaces the text of a file that was listed).
\<close>

datatype entry = File_entry string | Dir_entry string "entry list" | Other_entry string

text \<open>Lines 109-118: the entries that the matcher lets through, as files and directories.\<close>

fun scandir :: "'r env \<Rightarrow> path \<Rightarrow> entry list \<Rightarrow> path list \<times> (path \<times> entry list) list" where
  "scandir env local_dir [] = ([], [])"
| "scandir env local_dir (File_entry name # es) =
     (case scandir env local_dir es of
        (fs, ds) \<Rightarrow> if is_excluded env local_dir name False then (fs, ds)
                    else ((local_dir @ [name]) # fs, ds))"
| "scandir env local_dir (Dir_entry name sub # es) =
     (case scandir env local_dir es of
        (fs, ds) \<Rightarrow> if is_excluded env local_dir name True then (fs, ds)
                    else (fs, (local_dir @ [name], sub) # ds))"
| "scandir env local_dir (Other_entry name # es) = scandir env local_dir es"

text \<open>Lines 120-125: the representative document of the directory.\<close>

definition parent_doc :: "path \<Rightarrow> path list \<Rightarrow> path option" where
  "parent_doc local_dir fs =
     (if local_dir @ [''index.md''] \<in> set fs then Some (local_dir @ [''index.md''])
      else if local_dir @ [''README.md''] \<in> set fs then Some (local_dir @ [''README.md''])
      else None)"

text \<open>
  Lines 127-136: the representative document is taken out of the files and resolved under
  the inherited parent; the parent of the rest is the identity read back from its file,
  or else the inherited parent.
\<close>

definition index_parent ::
  "'r env \<Rightarrow> path \<Rightarrow> path list \<Rightarrow> qualified_id option \<Rightarrow> (path \<times> metadata) list \<Rightarrow> 'r state
     \<Rightarrow> (error + path list \<times> qualified_id option \<times> (path \<times> metadata) list) \<times> 'r state" where
  "index_parent env local_dir fs root_id page_metadata st =
     (case parent_doc local_dir fs of
        Some pd \<Rightarrow>
          (case get_or_create_page env pd root_id None st of
             (Inl e, st1) \<Rightarrow> (Inl e, st1)
           | (Inr md, st1) \<Rightarrow>
               (let st2 = log_record (Indexed_parent pd md) st1
                in case read_qualified_id (files st2) pd of
                     Inl e \<Rightarrow> (Inl e, st2)
                   | Inr q \<Rightarrow>
                       (Inr (remove1 pd fs,
                             (case q of Some i \<Rightarrow> Some i | None \<Rightarrow> root_id),
                             AList.update pd md page_metadata), st2)))
      | None \<Rightarrow> (Inr (fs, root_id, page_metadata), st))"

text \<open>Lines 138-141: the plain files, each resolved under the parent.\<close>

fun index_files ::
  "'r env \<Rightarrow> qualified_id option \<Rightarrow> path list \<Rightarrow> (path \<times> metadata) list \<Rightarrow> 'r state
     \<Rightarrow> (error + (path \<times> metadata) list) \<times> 'r state" where
  "index_files env parent_id [] page_metadata st = (Inr page_metadata, st)"
| "index_files env parent_id (doc # docs) page_metadata st =
     (case get_or_create_page env doc parent_id None st of
        (Inl e, st1) \<Rightarrow> (Inl e, st1)
      | (Inr md, st1) \<Rightarrow>
          index_files env parent_id docs (AList.update doc md page_metadata)
            (log_record (Indexed_doc doc md) st1))"

text \<open>
  \<^verbatim>\<open>Application._index_directory\<close> (lines 97-144), with the loop of lines 143-144 over the
  directories. The Identity Map is a dictionary: an association list in the order of
  insertion, where a key that is already there keeps its place.
\<close>

definition directories_size :: "(path \<times> entry list) list \<Rightarrow> nat" where
  "directories_size ds = sum_list (map (\<lambda>d. size_list size (snd d) + 2) ds)"

function index_directory ::
  "'r env \<Rightarrow> path \<Rightarrow> entry list \<Rightarrow> qualified_id option \<Rightarrow> (path \<times> metadata) list \<Rightarrow> 'r state
     \<Rightarrow> (error + (path \<times> metadata) list) \<times> 'r state"
and index_directories ::
  "'r env \<Rightarrow> (path \<times> entry list) list \<Rightarrow> qualified_id option \<Rightarrow> (path \<times> metadata) list \<Rightarrow> 'r state
     \<Rightarrow> (error + (path \<times> metadata) list) \<times> 'r state" where
  "index_directory env local_dir entries root_id page_metadata st =
     (case index_parent env local_dir (fst (scandir env local_dir entries)) root_id page_metadata
             (log_record (Indexing_directory local_dir) st) of
        (Inl e, st1) \<Rightarrow> (Inl e, st1)
      | (Inr (fs, parent_id, page_metadata1), st1) \<Rightarrow>
          (case index_files env parent_id fs page_metadata1 st1 of
             (Inl e, st2) \<Rightarrow> (Inl e, st2)
           | (Inr page_metadata2, st2) \<Rightarrow>
               index_directories env (snd (scandir env local_dir entries)) parent_id page_metadata2 st2))"
| "index_directories env [] parent_id page_metadata st = (Inr page_metadata, st)"
| "index_directories env (directory # rest) parent_id page_metadata st =
     (case index_directory env (fst directory) (snd directory) parent_id page_metadata st of
        (Inl e, st1) \<Rightarrow> (Inl e, st1)
      | (Inr page_metadata1, st1) \<Rightarrow> index_directories env rest parent_id page_metadata1 st1)"
  by pat_completeness auto

lemma scandir_size: "directories_size (snd (scandir env local_dir es)) \<le> size_list size es"
proof (induction es)
  case Nil
  show ?case by (simp add: directories_size_def)
next
  case (Cons e es)
  then show ?case
    by (cases e) (auto simp: directories_size_def split: prod.splits)
qed

termination index_directory
proof (relation "measure (\<lambda>x. case x of
          Inl (env, local_dir, es, root_id, page_metadata, st) \<Rightarrow> size_list size es + 1
        | Inr (env, ds, parent_id, page_metadata, st) \<Rightarrow> directories_size ds)", goal_cases)
  case 1
  show ?case by simp
next
  case (2 env local_dir es root_id page_metadata st)
  from scandir_size [of env local_dir es] show ?case by simp
next
  case 3
  show ?case by (simp add: directories_size_def)
next
  case 4
  show ?case by (simp add: directories_size_def)
qed

section \<open>Directory mode\<close>

text \<open>\<^verbatim>\<open>Application.synchronize_directory\<close> (lines 61-79).\<close>

fun synchronize_pages ::
  "'r env \<Rightarrow> path list \<Rightarrow> (path \<times> metadata) list \<Rightarrow> 'r state \<Rightarrow> (error + unit) \<times> 'r state" where
  "synchronize_pages env [] page_metadata st = (Inr (), st)"
| "synchronize_pages env (page_path # rest) page_metadata st =
     (case synchronize_page_priv env page_path page_metadata st of
        (Inl e, st1) \<Rightarrow> (Inl e, st1)
      | (Inr _, st1) \<Rightarrow> synchronize_pages env rest page_metadata st1)"

definition root_id_of :: "'r env \<Rightarrow> 'r state \<Rightarrow> qualified_id option" where
  "root_id_of env st =
     (case root_page_id env of
        None \<Rightarrow> None
      | Some r \<Rightarrow> if r \<noteq> [] then Some \<lparr>page_id = r, space_key = Some (session_space st)\<rparr> else None)"

definition synchronize_directory ::
  "'r env \<Rightarrow> path \<Rightarrow> entry list \<Rightarrow> 'r state \<Rightarrow> (error + unit) \<times> 'r state" where
  "synchronize_directory env local_dir entries st =
     (let st0 = log_record (Synchronizing_directory local_dir) st;
          root_id = root_id_of env st0
      in case index_directory env local_dir entries root_id [] st0 of
           (Inl e, st1) \<Rightarrow> (Inl e, st1)
         | (Inr page_metadata, st1) \<Rightarrow>
             synchronize_pages env (map fst page_metadata) page_metadata
               (log_record (Indexed_pages (length page_metadata)) st1))"

text \<open>The calls of the session in a trace, and the pages whose synchronization it records.\<close>

fun remote_calls :: "event list \<Rightarrow> api_call list" where
  "remote_calls [] = []"
| "remote_calls (Call s c # es) = c # remote_calls es"
| "remote_calls (Log l # es) = remote_calls es"

fun synchronized_paths :: "event list \<Rightarrow> path list" where
  "synchronized_paths [] = []"
| "synchronized_paths (Log (Synchronizing_page p) # es) = p # synchronized_paths es"
| "synchronized_paths (e # es) = synchronized_paths es"

text \<open>The events of the first phase (indexing) and of the second (synchronizing).\<close>

fun index_event :: "event \<Rightarrow> bool" where
  "index_event (Log (Indexing_directory d)) = True"
| "index_event (Log (Indexed_parent p md)) = True"
| "index_event (Log (Indexed_doc p md)) = True"
| "index_event (Call s (GetPage pid sk)) = True"
| "index_event (Call s (GetOrCreatePage title parent sk)) = True"
| "index_event e = False"

fun sync_event :: "event \<Rightarrow> bool" where
  "sync_event (Log (Synchronizing_page p)) = True"
| "sync_event (Log (Generated_document content)) = True"
| "sync_event (Call s (UploadAttachment pid source name raw_data)) = True"
| "sync_event (Call s (UpdatePage pid content)) = True"
| "sync_event e = False"

section \<open>A sample environment\<close>

text \<open>
  Stand-ins for the collaborators, to run the program on examples. The wiki is the list of
  the pages it holds, as title and page id. \<open>demo_extract_frontmatter\<close> splits a leading
  block (opened by the line \<open>---\<close> and closed by the next line \<open>---\<close>) from the text
  after it; \<open>demo_safe_load\<close> rejects a flow sequence that is not closed, reads a
  \<open>title\<close> property, and takes anything else for a plain value.
\<close>

definition demo_extract_frontmatter :: "string \<Rightarrow> string option \<times> string" where
  "demo_extract_frontmatter text =
     (if prefix ''---\<newline>'' text
      then (let i = py_find text ''\<newline>---\<newline>'' 3
            in if i < 0 then (None, text)
               else (Some (take (nat i - 2) (drop 3 text)), drop (nat i + 4) text))
      else (None, text))"

definition demo_safe_load :: "string \<Rightarrow> string + yaml" where
  "demo_safe_load s =
     (if CHR ''['' \<in> set s \<and> CHR '']'' \<notin> set s
      then Inl ''ParserError: while parsing a flow sequence''
      else if prefix ''\<newline>title: '' s
      then Inr (YDict [(''title'', YStr (takeWhile (\<lambda>c. c \<noteq> CHR 0x0A) (drop 8 s)))])
      else Inr YOther)"

definition demo_load_document ::
  "(path \<rightharpoonup> string) \<Rightarrow> path \<Rightarrow> (path \<times> metadata) list \<Rightarrow> string + document" where
  "demo_load_document fs page_path page_metadata =
     (case fs page_path of
        None \<Rightarrow> Inl ''no such file''
      | Some text \<Rightarrow>
          (case extract_qualified_id text of
             (None, body) \<Rightarrow> Inl ''missing Confluence page ID''
           | (Some q, body) \<Rightarrow>
               Inr \<lparr>doc_id = q, images = [[''figure.png'']],
                    embedded_images = [(''chart'', ''<svg/>'')], xhtml = body\<rparr>))"

definition demo_get_or_create ::
  "(string \<times> string) list \<Rightarrow> string \<Rightarrow> string \<Rightarrow> string \<Rightarrow> string option
     \<Rightarrow> (string + confluence_page) \<times> (string \<times> string) list" where
  "demo_get_or_create r s title parent sk =
     (case map_of r title of
        Some i \<Rightarrow> (Inr \<lparr>cp_id = i, cp_space_key = sk, cp_title = Some title\<rparr>, r)
      | None \<Rightarrow>
          (let i = ''10'' @ replicate (length r) (CHR ''0'')
           in (Inr \<lparr>cp_id = i, cp_space_key = sk, cp_title = Some title\<rparr>, r @ [(title, i)])))"

definition demo_env :: "(string \<times> string) list env" where
  "demo_env =
     \<lparr>api_domain = ''example.atlassian.net'',
      api_base_path = ''/wiki/'',
      root_page_id = Some ''1'',
      api_get_page = (\<lambda>r s pid sk. (Inr \<lparr>cp_id = pid, cp_space_key = sk, cp_title = Some ''Page''\<rparr>, r)),
      api_get_or_create_page = demo_get_or_create,
      api_upload_attachment = (\<lambda>r s pid source name raw_data. (Inr (), r)),
      api_update_page = (\<lambda>r s pid content. (Inr (), r)),
      extract_frontmatter = demo_extract_frontmatter,
      safe_load = demo_safe_load,
      load_document = demo_load_document,
      attachment_name = join ''_'',
      is_excluded = (\<lambda>local_dir name is_dir. prefix ''.'' name)\<rparr>"

definition demo_state :: "(path \<rightharpoonup> string) \<Rightarrow> (string \<times> string) list state" where
  "demo_state fs = \<lparr>files = fs, remote = [], session_space = ''DOC'', trace = []\<rparr>"


section \<open>Facts about searching\<close>

lemma find_prefix_none:
  "(\<And>k. k \<le> length hay \<Longrightarrow> \<not> prefix needle (drop k hay)) \<Longrightarrow> find_prefix needle hay n = - 1"
proof (induction hay arbitrary: n)
  case Nil
  from Nil [of 0] show ?case by simp
next
  case (Cons c cs)
  from Cons.prems [of 0] have "\<not> prefix needle (c # cs)" by simp
  moreover have "find_prefix needle cs (Suc n) = - 1"
  proof (rule Cons.IH)
    fix k assume "k \<le> length cs"
    with Cons.prems [of "Suc k"] show "\<not> prefix needle (drop k cs)" by simp
  qed
  ultimately show ?case by simp
qed

lemma find_prefix_first:
  "prefix needle (drop k hay) \<Longrightarrow> k \<le> length hay \<Longrightarrow>
   (\<And>j. j < k \<Longrightarrow> \<not> prefix needle (drop j hay)) \<Longrightarrow>
   find_prefix needle hay n = int (n + k)"
proof (induction hay arbitrary: n k)
  case Nil
  then show ?case by simp
next
  case (Cons c cs)
  show ?case
  proof (cases k)
    case 0
    with Cons.prems(1) show ?thesis by simp
  next
    case (Suc k')
    from Cons.prems(3) [of 0] Suc have no: "\<not> prefix needle (c # cs)" by simp
    have "find_prefix needle cs (Suc n) = int (Suc n + k')"
    proof (rule Cons.IH)
      from Cons.prems(1) Suc show "prefix needle (drop k' cs)" by simp
      from Cons.prems(2) Suc show "k' \<le> length cs" by simp
      fix j assume "j < k'"
      with Cons.prems(3) [of "Suc j"] Suc show "\<not> prefix needle (drop j cs)" by simp
    qed
    with no Suc show ?thesis by simp
  qed
qed

lemma sublist_drop_prefix:
  "sublist needle hay \<longleftrightarrow> (\<exists>k \<le> length hay. prefix needle (drop k hay))"
proof
  assume "sublist needle hay"
  then obtain ps ss where "hay = ps @ needle @ ss" by (auto simp: sublist_def)
  then have "length ps \<le> length hay \<and> prefix needle (drop (length ps) hay)" by simp
  then show "\<exists>k \<le> length hay. prefix needle (drop k hay)" by blast
next
  assume "\<exists>k \<le> length hay. prefix needle (drop k hay)"
  then obtain k zs where "drop k hay = needle @ zs" by (auto simp: prefix_def)
  then have "hay = take k hay @ needle @ zs" by (metis append_take_drop_id)
  then show "sublist needle hay" unfolding sublist_def by blast
qed

lemma py_find_no_sublist:
  assumes "\<not> sublist needle hay"
  shows "py_find hay needle start = - 1"
proof (cases "start \<le> length hay")
  case False
  then show ?thesis by (simp add: py_find_def)
next
  case True
  have "find_prefix needle (drop start hay) start = - 1"
  proof (rule find_prefix_none)
    fix k assume "k \<le> length (drop start hay)"
    with True have "start + k \<le> length hay" by simp
    with assms have "\<not> prefix needle (drop (start + k) hay)"
      by (auto simp: sublist_drop_prefix)
    then show "\<not> prefix needle (drop k (drop start hay))" by (simp add: add.commute)
  qed
  with True show ?thesis by (simp add: py_find_def)
qed

lemma py_find_first:
  assumes "hay = pre @ mid @ needle @ post" and "length pre = start"
    and "\<not> sublist needle (mid @ butlast needle)" and "needle \<noteq> []"
  shows "py_find hay needle start = int (start + length mid)"
proof -
  have d: "drop start hay = mid @ needle @ post" using assms(1,2) by simp
  have "find_prefix needle (mid @ needle @ post) start = int (start + length mid)"
  proof (rule find_prefix_first)
    show "prefix needle (drop (length mid) (mid @ needle @ post))" by simp
    show "length mid \<le> length (mid @ needle @ post)" by simp
    fix j assume j: "j < length mid"
    show "\<not> prefix needle (drop j (mid @ needle @ post))"
    proof
      assume "prefix needle (drop j (mid @ needle @ post))"
      then obtain zs where zs: "drop j mid @ needle @ post = needle @ zs"
        using j by (auto simp: prefix_def)
      have len: "length needle \<le> length (drop j mid @ butlast needle)"
        using j assms(4) by simp
      have "take (length needle) (drop j mid @ needle @ post) = needle"
        using zs by simp
      moreover have "take (length needle) (drop j mid @ needle @ post)
          = take (length needle) (drop j mid @ butlast needle)"
      proof -
        have "needle @ post = butlast needle @ (last needle # post)"
          using assms(4) by simp
        then have "drop j mid @ needle @ post = (drop j mid @ butlast needle) @ (last needle # post)"
          by simp
        then show ?thesis using len by (metis take_all_iff take_append append_Nil2 diff_is_0_eq take_0)
      qed
      ultimately have "prefix needle (drop j mid @ butlast needle)"
        by (metis take_is_prefix)
      then have "prefix needle (drop j (mid @ butlast needle))" using j by simp
      then have "sublist needle (mid @ butlast needle)"
        using j by (auto simp: sublist_drop_prefix intro!: exI [of _ j])
      with assms(3) show False by contradiction
    qed
  qed
  moreover have "start \<le> length hay" using assms(1,2) by simp
  ultimately show ?thesis using d by (simp add: py_find_def)
qed

section \<open>The writer and the front-matter\<close>

text \<open>
  C10. If the text given to the writer starts with the line \<open>---\<close> and has no closing
  delimiter (a line feed, \<open>---\<close>, a line feed) anywhere, the search of line 254 returns
  \<open>-1\<close>, so the index is 3, and the writer still takes the front-matter branch: the
  marker lines come after the first three characters \<open>---\<close> and before the line feed
  of the first line, and are not prepended to the text.
\<close>

theorem C10_unterminated_frontmatter:
  assumes "prefix ''---\<newline>'' document" and "\<not> sublist ''\<newline>---\<newline>'' document"
  shows "py_find document ''\<newline>---\<newline>'' 4 = - 1 \<and>
         py_find document ''\<newline>---\<newline>'' 4 + 4 = 3 \<and>
         update_markdown_text document pid sk =
           ''---'' @ ''\<newline>'' @ marker_lines pid sk @ drop 3 document \<and>
         drop 3 document = ''\<newline>'' @ drop 4 document"
proof -
  have f: "py_find document ''\<newline>---\<newline>'' 4 = - 1"
    using assms(2) by (rule py_find_no_sublist)
  from assms(1) obtain zs where d: "document = ''---\<newline>'' @ zs" by (auto simp: prefix_def)
  have t: "take 3 document = ''---''" and r: "drop 3 document = ''\<newline>'' @ drop 4 document"
    using d by simp_all
  have "update_markdown_text document pid sk =
          ''---'' @ ''\<newline>'' @ marker_lines pid sk @ drop 3 document"
    using assms(1) f t
    by (simp add: update_markdown_text_def marker_lines_def slice_to_def slice_from_def
        slice_index_def split: option.splits)
  with f r show ?thesis by simp
qed

theorem C10_witness:
  "update_markdown_text ''---\<newline>title: T'' ''42'' (Some ''DOC'') =
     ''---\<newline><!-- confluence-page-id: 42 -->\<newline><!-- confluence-space-key: DOC -->\<newline>\<newline>title: T''"
  using C10_unterminated_frontmatter [of "''---\<newline>title: T''" "''42''" "Some ''DOC''"]
  by (simp add: sublist_code marker_lines_def page_id_marker_def space_key_marker_def)

text \<open>
  The writer keeps a front-matter block that it is given: when the text begins with the
  line \<open>---\<close>, the properties and the first closing line \<open>---\<close>, the file that the
  writer leaves begins with that block unchanged; the marker lines and the line feed that
  \<^verbatim>\<open>join\<close> puts after them follow the closing delimiter, and the rest follows them.
\<close>

lemma update_markdown_keeps_block:
  assumes "document = ''---\<newline>'' @ props @ ''\<newline>---\<newline>'' @ body"
    and "\<not> sublist ''\<newline>---\<newline>'' (props @ ''\<newline>---'')"
  shows "files (update_markdown path document pid sk st) path =
           Some (''---\<newline>'' @ props @ ''\<newline>---\<newline>'' @ marker_lines pid sk @ ''\<newline>'' @ body)"
proof -
  have f: "py_find document ''\<newline>---\<newline>'' 4 = int (4 + length props)"
    using assms by (intro py_find_first [where pre = "''---\<newline>''" and post = body]) simp_all
  have p: "prefix ''---\<newline>'' document" using assms(1) by simp
  define F where "F = ''---\<newline>'' @ props @ ''\<newline>---''"
  have doc: "document = F @ ''\<newline>'' @ body" and len: "8 + length props = length F"
    using assms(1) by (simp_all add: F_def)
  have t: "take (8 + length props) document = ''---\<newline>'' @ props @ ''\<newline>---''"
    and d: "drop (8 + length props) document = ''\<newline>'' @ body"
    unfolding len doc by (simp_all add: F_def)
  have i: "nat (8 + int (length props)) = 8 + length props" by simp
  have "update_markdown_text document pid sk =
          ''---\<newline>'' @ props @ ''\<newline>---\<newline>'' @ marker_lines pid sk @ ''\<newline>'' @ body"
    using p f t d i
    by (simp add: update_markdown_text_def marker_lines_def slice_to_def slice_from_def
        slice_index_def split: option.splits)
  then show ?thesis by (simp add: update_markdown_def)
qed

section \<open>Facts about the resolver\<close>

lemma remote_call_trace:
  "trace (snd (remote_call c operation st)) = trace st @ [Call (session_space st) c]"
  by (simp add: remote_call_def split: prod.splits)

lemma remote_call_files: "files (snd (remote_call c operation st)) = files st"
  by (simp add: remote_call_def split: prod.splits)

lemma remote_call_error:
  "fst (remote_call c operation st) = Inl e \<Longrightarrow> \<exists>msg. e = Remote_error msg"
  by (auto simp: remote_call_def split: prod.splits sum.splits)

lemma create_page_eq:
  assumes "api_get_or_create_page env (remote st) (session_space st)
             (case title of None \<Rightarrow> stem p | Some t \<Rightarrow> t) (page_id par) (space_key par) = (answer, r)"
  shows "create_page env p d title par st =
     (case answer of
        Inl msg \<Rightarrow>
          (Inl (Remote_error msg),
           st\<lparr>remote := r, trace := trace st @ [Call (session_space st)
             (GetOrCreatePage (case title of None \<Rightarrow> stem p | Some t \<Rightarrow> t) (page_id par) (space_key par))]\<rparr>)
      | Inr confluence_page \<Rightarrow>
          (Inr confluence_page,
           update_markdown p d (cp_id confluence_page) (cp_space_key confluence_page)
             (st\<lparr>remote := r, trace := trace st @ [Call (session_space st)
               (GetOrCreatePage (case title of None \<Rightarrow> stem p | Some t \<Rightarrow> t) (page_id par) (space_key par))]\<rparr>)))"
  using assms
  by (simp add: create_page_def get_or_create_page_remote_def remote_call_def Let_def
      split: sum.splits)

lemma create_page_trace:
  "trace (snd (create_page env p d title par st)) =
     trace st @ [Call (session_space st)
       (GetOrCreatePage (case title of None \<Rightarrow> stem p | Some t \<Rightarrow> t) (page_id par) (space_key par))]"
proof -
  obtain answer r where "api_get_or_create_page env (remote st) (session_space st)
             (case title of None \<Rightarrow> stem p | Some t \<Rightarrow> t) (page_id par) (space_key par) = (answer, r)"
    by (cases "api_get_or_create_page env (remote st) (session_space st)
             (case title of None \<Rightarrow> stem p | Some t \<Rightarrow> t) (page_id par) (space_key par)") auto
  from create_page_eq [OF this] show ?thesis
    by (simp add: update_markdown_def split: sum.splits)
qed

lemma create_page_result:
  "fst (create_page env p d title par st) =
     (case fst (api_get_or_create_page env (remote st) (session_space st)
                 (case title of None \<Rightarrow> stem p | Some t \<Rightarrow> t) (page_id par) (space_key par)) of
        Inl msg \<Rightarrow> Inl (Remote_error msg)
      | Inr confluence_page \<Rightarrow> Inr confluence_page)"
proof -
  obtain answer r where "api_get_or_create_page env (remote st) (session_space st)
             (case title of None \<Rightarrow> stem p | Some t \<Rightarrow> t) (page_id par) (space_key par) = (answer, r)"
    by (cases "api_get_or_create_page env (remote st) (session_space st)
             (case title of None \<Rightarrow> stem p | Some t \<Rightarrow> t) (page_id par) (space_key par)") auto
  from create_page_eq [OF this] this show ?thesis
    by (simp split: sum.splits)
qed

lemma create_page_error:
  "fst (create_page env p document title parent st) = Inl e \<Longrightarrow> \<exists>msg. e = Remote_error msg"
  by (auto simp: create_page_result split: sum.splits)

lemma frontmatter_title_error:
  "frontmatter_title env title fm = Inl e \<Longrightarrow> \<exists>msg. e = YAML_error msg"
  by (auto simp: frontmatter_title_def split: option.splits sum.splits)

lemma get_or_create_page_marked:
  assumes "files st p = Some text" and "fst (extract_qualified_id text) = Some q"
  shows "get_or_create_page env p parent title st =
           (case get_page env (page_id q) (space_key q) st of
              (Inl e, st1) \<Rightarrow> (Inl e, st1)
            | (Inr confluence_page, st1) \<Rightarrow> (Inr (page_metadata_of env st1 confluence_page), st1))"
proof -
  obtain d where e: "extract_qualified_id text = (Some q, d)"
    using assms(2) by (cases "extract_qualified_id text") auto
  obtain fm d' where f: "extract_frontmatter env d = (fm, d')"
    by (cases "extract_frontmatter env d") auto
  show ?thesis using assms(1) e f by (simp add: get_or_create_page_def)
qed

lemma get_or_create_page_unmarked:
  assumes "files st p = Some text" and "extract_qualified_id text = (None, d)"
    and "extract_frontmatter env d = (fm, d')"
  shows "get_or_create_page env p parent title st =
           (case parent of
              None \<Rightarrow> (Inl (Missing_parent p), st)
            | Some par \<Rightarrow>
                (case frontmatter_title env title fm of
                   Inl e \<Rightarrow> (Inl e, st)
                 | Inr t \<Rightarrow>
                     (case create_page env p d' t par st of
                        (Inl e, st1) \<Rightarrow> (Inl e, st1)
                      | (Inr confluence_page, st1) \<Rightarrow> (Inr (page_metadata_of env st1 confluence_page), st1))))"
  using assms by (simp add: get_or_create_page_def split: option.splits sum.splits)

section \<open>Claims about the Identity Resolver\<close>

text \<open>
  C5. The Identity Resolver raises its own error, the one that names the file, exactly
  when the file can be read, has no identity marker, and the parent identity is null.
  (Errors of the session and of the YAML parser are other errors, which it lets through.)
  When the file has an identity marker, the only call of the session is \<open>get_page\<close>
  with the page id and the space key of the marker, whatever the parent argument is, and
  no file is written: no page is created.
\<close>

theorem C5_missing_parent:
  "(fst (get_or_create_page env p parent title st) = Inl (Missing_parent p') \<longleftrightarrow>
      p' = p \<and> parent = None \<and> (\<exists>text. files st p = Some text \<and> fst (extract_qualified_id text) = None)) \<and>
   (\<forall>text q. files st p = Some text \<and> fst (extract_qualified_id text) = Some q \<longrightarrow>
      trace (snd (get_or_create_page env p parent title st)) =
        trace st @ [Call (session_space st) (GetPage (page_id q) (space_key q))] \<and>
      files (snd (get_or_create_page env p parent title st)) = files st)"
proof (intro conjI allI impI)
  show "fst (get_or_create_page env p parent title st) = Inl (Missing_parent p') \<longleftrightarrow>
      p' = p \<and> parent = None \<and> (\<exists>text. files st p = Some text \<and> fst (extract_qualified_id text) = None)"
  proof (cases "files st p")
    case None
    then show ?thesis by (simp add: get_or_create_page_def)
  next
    case (Some t)
    obtain qid d where e: "extract_qualified_id t = (qid, d)"
      by (cases "extract_qualified_id t") auto
    obtain fm d' where f: "extract_frontmatter env d = (fm, d')"
      by (cases "extract_frontmatter env d") auto
    show ?thesis
    proof (cases qid)
      case (Some q)
      have "fst (get_or_create_page env p parent title st) \<noteq> Inl (Missing_parent p')"
      proof
        assume a: "fst (get_or_create_page env p parent title st) = Inl (Missing_parent p')"
        have "fst (extract_qualified_id t) = Some q" using e Some by simp
        from get_or_create_page_marked [OF \<open>files st p = Some t\<close> this, of env parent title] a
        have "fst (get_page env (page_id q) (space_key q) st) = Inl (Missing_parent p')"
          by (auto split: prod.splits sum.splits)
        then show False by (auto simp: get_page_def dest: remote_call_error)
      qed
      with Some e \<open>files st p = Some t\<close> show ?thesis by simp
    next
      case None
      with e have e': "extract_qualified_id t = (None, d)" by simp
      note u = get_or_create_page_unmarked [OF \<open>files st p = Some t\<close> e' f, of parent title]
      show ?thesis
      proof (cases parent)
        case None
        with u \<open>files st p = Some t\<close> e' show ?thesis by auto
      next
        case (Some par)
        have "fst (get_or_create_page env p parent title st) \<noteq> Inl (Missing_parent p')"
        proof
          assume a: "fst (get_or_create_page env p parent title st) = Inl (Missing_parent p')"
          show False
          proof (cases "frontmatter_title env title fm")
            case (Inl e)
            with a u Some frontmatter_title_error [OF Inl] show False by auto
          next
            case (Inr tt)
            with a u Some have "fst (create_page env p d' tt par st) = Inl (Missing_parent p')"
              by (auto split: prod.splits sum.splits)
            then show False by (auto dest: create_page_error)
          qed
        qed
        with Some show ?thesis by simp
      qed
    qed
  qed
next
  fix t q
  assume a: "files st p = Some t \<and> fst (extract_qualified_id t) = Some q"
  then have m: "get_or_create_page env p parent title st =
           (case get_page env (page_id q) (space_key q) st of
              (Inl e, st1) \<Rightarrow> (Inl e, st1)
            | (Inr confluence_page, st1) \<Rightarrow> (Inr (page_metadata_of env st1 confluence_page), st1))"
    by (simp add: get_or_create_page_marked)
  have s: "snd (get_or_create_page env p parent title st) = snd (get_page env (page_id q) (space_key q) st)"
    unfolding m by (auto split: prod.splits sum.splits)
  show "trace (snd (get_or_create_page env p parent title st)) =
        trace st @ [Call (session_space st) (GetPage (page_id q) (space_key q))]"
    unfolding s by (simp add: get_page_def remote_call_trace)
  show "files (snd (get_or_create_page env p parent title st)) = files st"
    unfolding s by (simp add: get_page_def remote_call_files)
qed


theorem C5_witness:
  "fst (get_or_create_page demo_env [''docs'', ''a.md''] None None
          (demo_state [[''docs'', ''a.md''] \<mapsto> ''Body''])) = Inl (Missing_parent [''docs'', ''a.md'']) \<and>
   trace (snd (get_or_create_page demo_env [''docs'', ''b.md''] None None
          (demo_state [[''docs'', ''b.md''] \<mapsto> ''<!-- confluence-page-id: 42 -->\<newline>Body''])))
     = [Call ''DOC'' (GetPage ''42'' None)]"
  using C5_missing_parent [of demo_env "[''docs'', ''a.md'']" None None
      "demo_state [[''docs'', ''a.md''] \<mapsto> ''Body'']" "[''docs'', ''a.md'']"]
    C5_missing_parent [of demo_env "[''docs'', ''b.md'']" None None
      "demo_state [[''docs'', ''b.md''] \<mapsto> ''<!-- confluence-page-id: 42 -->\<newline>Body'']" "[''docs'', ''b.md'']"]
  by (simp add: demo_state_def extract_qualified_id_def parse_comment_def value_char_def)


text \<open>
  C6, as amended. For a document without identity marker that has a front-matter block,
  resolved under a parent: when \<^verbatim>\<open>yaml.safe_load\<close> raises on the block, the resolver
  fails with that error, before any call of the session; when it loads the block as
  anything but a mapping with a text \<open>title\<close>, the resolver asks the session for the
  page titled with the stem of the file name, and fails only if that call fails.
\<close>

theorem C6_frontmatter_tolerance:
  assumes "files st p = Some text" and "extract_qualified_id text = (None, d)"
    and "extract_frontmatter env d = (Some fm, d')"
  shows "(\<forall>msg. safe_load env fm = Inl msg \<longrightarrow>
            get_or_create_page env p (Some par) None st = (Inl (YAML_error msg), st)) \<and>
         (\<forall>v. safe_load env fm = Inr v \<and> property_title v = None \<longrightarrow>
            trace (snd (get_or_create_page env p (Some par) None st)) =
              trace st @ [Call (session_space st) (GetOrCreatePage (stem p) (page_id par) (space_key par))] \<and>
            (\<forall>e. fst (get_or_create_page env p (Some par) None st) = Inl e \<longrightarrow>
               (\<exists>msg. e = Remote_error msg \<and>
                  fst (api_get_or_create_page env (remote st) (session_space st) (stem p)
                         (page_id par) (space_key par)) = Inl msg)))"
proof (intro conjI allI impI)
  note u = get_or_create_page_unmarked [OF assms, of "Some par" None]
  fix msg assume "safe_load env fm = Inl msg"
  then have "frontmatter_title env None (Some fm) = Inl (YAML_error msg)"
    by (simp add: frontmatter_title_def)
  with u show "get_or_create_page env p (Some par) None st = (Inl (YAML_error msg), st)" by simp
next
  note u = get_or_create_page_unmarked [OF assms, of "Some par" None]
  fix v assume "safe_load env fm = Inr v \<and> property_title v = None"
  then have "frontmatter_title env None (Some fm) = Inr None"
    by (simp add: frontmatter_title_def)
  with u have r: "get_or_create_page env p (Some par) None st =
      (case create_page env p d' None par st of
         (Inl e, st1) \<Rightarrow> (Inl e, st1)
       | (Inr confluence_page, st1) \<Rightarrow> (Inr (page_metadata_of env st1 confluence_page), st1))"
    by simp
  have s: "snd (get_or_create_page env p (Some par) None st) = snd (create_page env p d' None par st)"
    unfolding r by (auto split: prod.splits sum.splits)
  show "trace (snd (get_or_create_page env p (Some par) None st)) =
      trace st @ [Call (session_space st) (GetOrCreatePage (stem p) (page_id par) (space_key par))]"
    unfolding s by (simp add: create_page_trace)
  fix e assume "fst (get_or_create_page env p (Some par) None st) = Inl e"
  then have "fst (create_page env p d' None par st) = Inl e"
    unfolding r by (auto split: prod.splits sum.splits)
  then show "\<exists>msg. e = Remote_error msg \<and>
                  fst (api_get_or_create_page env (remote st) (session_space st) (stem p)
                         (page_id par) (space_key par)) = Inl msg"
    by (auto simp: create_page_result split: sum.splits)
qed

theorem C6_witness:
  "trace (snd (get_or_create_page demo_env [''docs'', ''a.md''] (Some \<lparr>page_id = ''1'', space_key = None\<rparr>) None
          (demo_state [[''docs'', ''a.md''] \<mapsto> ''---\<newline>- a\<newline>- b\<newline>---\<newline>Body''])))
     = [Call ''DOC'' (GetOrCreatePage ''a'' ''1'' None)]"
  using C6_frontmatter_tolerance [of "demo_state [[''docs'', ''a.md''] \<mapsto> ''---\<newline>- a\<newline>- b\<newline>---\<newline>Body'']"
      "[''docs'', ''a.md'']" "''---\<newline>- a\<newline>- b\<newline>---\<newline>Body''"
      "''---\<newline>- a\<newline>- b\<newline>---\<newline>Body''" demo_env "''\<newline>- a\<newline>- b\<newline>''" "''\<newline>Body''"
      "\<lparr>page_id = ''1'', space_key = None\<rparr>"]
  by (simp add: demo_state_def demo_env_def extract_qualified_id_def parse_comment_def
      demo_extract_frontmatter_def py_find_def demo_safe_load_def property_title_def
      stem_def rfind_dot_def slice_to_def slice_index_def)

text \<open>
  C6 as stated fails: a document without marker whose front-matter is not valid YAML
  (a flow sequence that is not closed) makes the resolver fail with the error of the
  parser; no page is asked for and the state is unchanged.
\<close>

theorem C6_counterexample:
  "fst (extract_qualified_id ''---\<newline>title: [draft\<newline>---\<newline>Body'') = None \<and>
   get_or_create_page demo_env [''docs'', ''a.md''] (Some \<lparr>page_id = ''1'', space_key = None\<rparr>) None
       (demo_state [[''docs'', ''a.md''] \<mapsto> ''---\<newline>title: [draft\<newline>---\<newline>Body''])
     = (Inl (YAML_error ''ParserError: while parsing a flow sequence''),
        demo_state [[''docs'', ''a.md''] \<mapsto> ''---\<newline>title: [draft\<newline>---\<newline>Body''])"
  by (simp add: get_or_create_page_def demo_state_def demo_env_def extract_qualified_id_def
      parse_comment_def demo_extract_frontmatter_def py_find_def demo_safe_load_def
      frontmatter_title_def)

text \<open>
  C2. The claim fails on the program. The resolver gives the writer the document that
  \<^verbatim>\<open>extract_frontmatter\<close> returns (line 162), not the text of the file: with a helper
  that splits the block from the text after it, the file that begins with the block
  \<open>---\<close>, \<open>title: T\<close>, \<open>---\<close> is rewritten as the marker line, an empty line and the
  body, and the block is gone, although the writer keeps a block that it is given. The
  writer itself breaks a block that has no properties, and a block whose closing line ends
  the text without a line feed: the search from index 4 finds no closing delimiter, and
  the marker line goes after the opening \<open>---\<close>, inside the block.
\<close>

theorem C2_frontmatter_lost:
  "files (snd (get_or_create_page demo_env [''docs'', ''a.md'']
        (Some \<lparr>page_id = ''1'', space_key = None\<rparr>) None
        (demo_state [[''docs'', ''a.md''] \<mapsto> ''---\<newline>title: T\<newline>---\<newline>Body\<newline>''])))
     [''docs'', ''a.md''] =
     Some ''<!-- confluence-page-id: 10 -->\<newline>\<newline>Body\<newline>'' \<and>
   update_markdown_text ''---\<newline>---\<newline>Body'' ''10'' None =
     ''---\<newline><!-- confluence-page-id: 10 -->\<newline>\<newline>---\<newline>Body'' \<and>
   update_markdown_text ''---\<newline>title: T\<newline>---'' ''10'' None =
     ''---\<newline><!-- confluence-page-id: 10 -->\<newline>\<newline>title: T\<newline>---''"
  by (simp add: get_or_create_page_def demo_state_def demo_env_def extract_qualified_id_def
      parse_comment_def demo_extract_frontmatter_def demo_safe_load_def property_title_def
      frontmatter_title_def create_page_def get_or_create_page_remote_def remote_call_def
      demo_get_or_create_def update_markdown_def update_markdown_text_def page_id_marker_def
      slice_from_def slice_to_def slice_index_def py_find_def Let_def)

section \<open>Claims about the Page Synchronizer\<close>

lemma upload_attachment_snd:
  "snd (upload_attachment env pid source name raw_data st) =
     st\<lparr>remote := snd (api_upload_attachment env (remote st) (session_space st) pid source name raw_data),
        trace := trace st @ [Call (session_space st) (UploadAttachment pid source name raw_data)]\<rparr>"
  by (simp add: upload_attachment_def remote_call_def split: prod.splits)

lemma upload_images_events:
  "\<exists>n \<le> length imgs.
     trace (snd (upload_images env pid base_path imgs st)) =
       trace st @ take n (map (\<lambda>img. Call (session_space st)
          (UploadAttachment pid (base_path @ img) (attachment_name env img) None)) imgs) \<and>
     session_space (snd (upload_images env pid base_path imgs st)) = session_space st \<and>
     (\<forall>u. fst (upload_images env pid base_path imgs st) = Inr u \<longrightarrow> n = length imgs)"
proof (induction imgs arbitrary: st)
  case Nil
  show ?case by simp
next
  case (Cons img rest)
  let ?c = "Call (session_space st) (UploadAttachment pid (base_path @ img) (attachment_name env img) None)"
  obtain res st1 where u: "upload_attachment env pid (base_path @ img) (attachment_name env img) None st = (res, st1)"
    by (cases "upload_attachment env pid (base_path @ img) (attachment_name env img) None st") auto
  from upload_attachment_snd [of env pid "base_path @ img" "attachment_name env img" None st] u
  have t1: "trace st1 = trace st @ [?c]" and s1: "session_space st1 = session_space st"
    by simp_all
  show ?case
  proof (cases res)
    case (Inl e)
    with u t1 s1 show ?thesis by (intro exI [of _ 1]) simp
  next
    case (Inr x)
    from Cons.IH [of st1] obtain n where n: "n \<le> length rest"
      "trace (snd (upload_images env pid base_path rest st1)) =
         trace st1 @ take n (map (\<lambda>img. Call (session_space st1)
          (UploadAttachment pid (base_path @ img) (attachment_name env img) None)) rest)"
      "session_space (snd (upload_images env pid base_path rest st1)) = session_space st1"
      "\<forall>u. fst (upload_images env pid base_path rest st1) = Inr u \<longrightarrow> n = length rest"
      by blast
    with u Inr t1 s1 show ?thesis by (intro exI [of _ "Suc n"]) simp
  qed
qed

lemma upload_embedded_images_events:
  "\<exists>n \<le> length imgs.
     trace (snd (upload_embedded_images env pid imgs st)) =
       trace st @ take n (map (\<lambda>(img, data). Call (session_space st)
          (UploadAttachment pid [''EMB'', img] (attachment_name env [img]) (Some data))) imgs) \<and>
     session_space (snd (upload_embedded_images env pid imgs st)) = session_space st \<and>
     (\<forall>u. fst (upload_embedded_images env pid imgs st) = Inr u \<longrightarrow> n = length imgs)"
proof (induction imgs arbitrary: st)
  case Nil
  show ?case by simp
next
  case (Cons a rest)
  obtain img data where a: "a = (img, data)" by (cases a) auto
  let ?c = "Call (session_space st) (UploadAttachment pid [''EMB'', img] (attachment_name env [img]) (Some data))"
  obtain res st1 where u: "upload_attachment env pid [''EMB'', img] (attachment_name env [img]) (Some data) st = (res, st1)"
    by (cases "upload_attachment env pid [''EMB'', img] (attachment_name env [img]) (Some data) st") auto
  from upload_attachment_snd [of env pid "[''EMB'', img]" "attachment_name env [img]" "Some data" st] u
  have t1: "trace st1 = trace st @ [?c]" and s1: "session_space st1 = session_space st"
    by simp_all
  show ?case
  proof (cases res)
    case (Inl e)
    with u t1 s1 a show ?thesis by (intro exI [of _ 1]) simp
  next
    case (Inr x)
    from Cons.IH [of st1] obtain n where n: "n \<le> length rest"
      "trace (snd (upload_embedded_images env pid rest st1)) =
         trace st1 @ take n (map (\<lambda>(img, data). Call (session_space st1)
          (UploadAttachment pid [''EMB'', img] (attachment_name env [img]) (Some data))) rest)"
      "session_space (snd (upload_embedded_images env pid rest st1)) = session_space st1"
      "\<forall>u. fst (upload_embedded_images env pid rest st1) = Inr u \<longrightarrow> n = length rest"
      by blast
    with u Inr t1 s1 a show ?thesis by (intro exI [of _ "Suc n"]) simp
  qed
qed

lemma update_page_snd:
  "snd (update_page env pid content st) =
     st\<lparr>remote := snd (api_update_page env (remote st) (session_space st) pid content),
        trace := trace st @ [Call (session_space st) (UpdatePage pid content)]\<rparr>"
  by (simp add: update_page_def remote_call_def split: prod.splits)

lemma update_document_events:
  "\<exists>n \<le> length (document_events env document base_path (session_space st)).
     trace (snd (update_document env document base_path st)) =
       trace st @ take n (document_events env document base_path (session_space st)) \<and>
     session_space (snd (update_document env document base_path st)) = session_space st \<and>
     (\<forall>u. fst (update_document env document base_path st) = Inr u \<longrightarrow>
        n = length (document_events env document base_path (session_space st)))"
proof -
  let ?pid = "page_id (doc_id document)"
  let ?s = "session_space st"
  let ?A = "map (\<lambda>img. Call ?s (UploadAttachment ?pid (base_path @ img) (attachment_name env img) None))
              (images document)"
  let ?B = "map (\<lambda>(img, data). Call ?s (UploadAttachment ?pid [''EMB'', img] (attachment_name env [img]) (Some data)))
              (embedded_images document)"
  let ?C = "[Log (Generated_document (xhtml document)), Call ?s (UpdatePage ?pid (xhtml document))]"
  have ev: "document_events env document base_path ?s = ?A @ ?B @ ?C"
    by (simp add: document_events_def upload_events_def)
  obtain r1 st1 where u1: "upload_images env ?pid base_path (images document) st = (r1, st1)"
    by (cases "upload_images env ?pid base_path (images document) st") auto
  from upload_images_events [of "images document" env ?pid base_path st] u1
  obtain n1 where n1: "n1 \<le> length ?A" "trace st1 = trace st @ take n1 ?A"
    "session_space st1 = ?s" "\<forall>u. r1 = Inr u \<longrightarrow> n1 = length ?A"
    by auto
  show ?thesis
  proof (cases r1)
    case (Inl e)
    with u1 n1 show ?thesis unfolding ev
      by (intro exI [of _ n1]) (simp add: update_document_def)
  next
    case (Inr x1)
    with n1 have f1: "trace st1 = trace st @ ?A" by simp
    obtain r2 st2 where u2: "upload_embedded_images env ?pid (embedded_images document) st1 = (r2, st2)"
      by (cases "upload_embedded_images env ?pid (embedded_images document) st1") auto
    from upload_embedded_images_events [of "embedded_images document" env ?pid st1] u2 n1(3)
    obtain n2 where n2: "n2 \<le> length ?B" "trace st2 = trace st1 @ take n2 ?B"
      "session_space st2 = ?s" "\<forall>u. r2 = Inr u \<longrightarrow> n2 = length ?B"
      by auto
    show ?thesis
    proof (cases r2)
      case (Inl e)
      with u1 u2 Inr n2 f1 show ?thesis unfolding ev
        by (intro exI [of _ "length ?A + n2"]) (simp add: update_document_def)
    next
      case (Inr x2)
      with n2 have f2: "trace st2 = trace st @ ?A @ ?B" using f1 by simp
      have "update_document env document base_path st =
          update_page env ?pid (xhtml document) (log_record (Generated_document (xhtml document)) st2)"
        using u1 u2 \<open>r1 = Inr x1\<close> Inr by (simp add: update_document_def Let_def)
      then show ?thesis unfolding ev using f2 n2(3)
        by (intro exI [of _ "length (?A @ ?B @ ?C)"])
           (simp add: update_page_snd log_record_def)
    qed
  qed
qed


text \<open>
  C8. The events that the update of a document adds to the trace are an initial part of:
  the uploads of the images, the uploads of the embedded images, the record of the
  generated content, the update of the page. So every upload is issued before the update
  of the page, and no call of the session follows the update; when the update of the
  document returns, all of them were issued, the update of the page last.
\<close>

theorem C8_uploads_before_update:
  "\<exists>n. trace (snd (update_document env document base_path st)) =
          trace st @ take n (upload_events env document base_path (session_space st) @
            [Log (Generated_document (xhtml document)),
             Call (session_space st) (UpdatePage (page_id (doc_id document)) (xhtml document))]) \<and>
        list_all is_upload (upload_events env document base_path (session_space st)) \<and>
        (\<forall>u. fst (update_document env document base_path st) = Inr u \<longrightarrow>
           trace (snd (update_document env document base_path st)) =
             trace st @ upload_events env document base_path (session_space st) @
               [Log (Generated_document (xhtml document)),
                Call (session_space st) (UpdatePage (page_id (doc_id document)) (xhtml document))])"
proof -
  from update_document_events [of env document base_path st]
  obtain n where n: "trace (snd (update_document env document base_path st)) =
       trace st @ take n (document_events env document base_path (session_space st))"
     "\<forall>u. fst (update_document env document base_path st) = Inr u \<longrightarrow>
        n = length (document_events env document base_path (session_space st))"
    by blast
  have "list_all is_upload (upload_events env document base_path (session_space st))"
    by (auto simp: upload_events_def list_all_iff)
  with n show ?thesis
    by (intro exI [of _ n]) (auto simp: document_events_def)
qed

theorem C8_witness:
  "trace (snd (update_document demo_env
       \<lparr>doc_id = \<lparr>page_id = ''42'', space_key = None\<rparr>, images = [[''figure.png'']],
        embedded_images = [(''chart'', ''<svg/>'')], xhtml = ''<p>Body</p>''\<rparr>
       [''docs''] (demo_state Map.empty))) =
     [Call ''DOC'' (UploadAttachment ''42'' [''docs'', ''figure.png''] ''figure.png'' None),
      Call ''DOC'' (UploadAttachment ''42'' [''EMB'', ''chart''] ''chart'' (Some ''<svg/>'')),
      Log (Generated_document ''<p>Body</p>''),
      Call ''DOC'' (UpdatePage ''42'' ''<p>Body</p>'')]"
proof -
  have ok: "fst (update_document demo_env
       \<lparr>doc_id = \<lparr>page_id = ''42'', space_key = None\<rparr>, images = [[''figure.png'']],
        embedded_images = [(''chart'', ''<svg/>'')], xhtml = ''<p>Body</p>''\<rparr>
       [''docs''] (demo_state Map.empty)) = Inr ()"
    by (simp add: update_document_def upload_attachment_def update_page_def remote_call_def
        demo_env_def demo_state_def log_record_def Let_def)
  from C8_uploads_before_update [of demo_env
       "\<lparr>doc_id = \<lparr>page_id = ''42'', space_key = None\<rparr>, images = [[''figure.png'']],
        embedded_images = [(''chart'', ''<svg/>'')], xhtml = ''<p>Body</p>''\<rparr>"
       "[''docs'']" "demo_state Map.empty"] ok
  show ?thesis
    by (simp add: upload_events_def demo_env_def demo_state_def)
qed

lemma switch_space_update_document:
  "\<exists>n \<le> length (document_events env document base_path k).
     trace (snd (switch_space k (update_document env document base_path) st)) =
       trace st @ take n (document_events env document base_path k) \<and>
     session_space (snd (switch_space k (update_document env document base_path) st)) = session_space st \<and>
     (\<forall>u. fst (switch_space k (update_document env document base_path) st) = Inr u \<longrightarrow>
        n = length (document_events env document base_path k))"
proof -
  from update_document_events [of env document base_path "st\<lparr>session_space := k\<rparr>"]
  show ?thesis by (auto simp: switch_space_def split: prod.splits)
qed

text \<open>
  C7. When a page is synchronized, the calls of the session for its document are issued
  with the session in the space of the document: the space key of its identity when that
  is not empty, the default space of the session otherwise. That space differs from the
  default exactly when the document has a non-empty space key other than the default
  (with a space key equal to the default, the switch is to the same space). After the
  page, the session is in its default space again.
\<close>

theorem C7_space_switched_and_restored:
  assumes "load_document env (files st) page_path page_metadata = Inr document"
  shows "session_space (snd (synchronize_page_priv env page_path page_metadata st)) = session_space st \<and>
         (\<exists>n. trace (snd (synchronize_page_priv env page_path page_metadata st)) =
            trace st @ Log (Synchronizing_page page_path) #
              take n (document_events env document (butlast page_path)
                        (document_space document (session_space st)))) \<and>
         (document_space document (session_space st) \<noteq> session_space st \<longleftrightarrow>
            (\<exists>k. space_key (doc_id document) = Some k \<and> k \<noteq> [] \<and> k \<noteq> session_space st))"
proof -
  let ?st0 = "log_record (Synchronizing_page page_path) st"
  have l: "load_document env (files ?st0) page_path page_metadata = Inr document"
    using assms by (simp add: log_record_def)
  have t0: "trace ?st0 = trace st @ [Log (Synchronizing_page page_path)]"
    and s0: "session_space ?st0 = session_space st"
    by (simp_all add: log_record_def)
  from update_document_events [of env document "butlast page_path" ?st0]
  obtain n1 where n1: "trace (snd (update_document env document (butlast page_path) ?st0)) =
       trace ?st0 @ take n1 (document_events env document (butlast page_path) (session_space ?st0))"
     "session_space (snd (update_document env document (butlast page_path) ?st0)) = session_space ?st0"
    by blast
  show ?thesis
  proof (cases "\<exists>k. space_key (doc_id document) = Some k \<and> k \<noteq> []")
    case True
    then obtain k where k: "space_key (doc_id document) = Some k" "k \<noteq> []" by blast
    from switch_space_update_document [of env document "butlast page_path" k ?st0]
    obtain n2 where n2: "trace (snd (switch_space k (update_document env document (butlast page_path)) ?st0)) =
         trace ?st0 @ take n2 (document_events env document (butlast page_path) k)"
      "session_space (snd (switch_space k (update_document env document (butlast page_path)) ?st0)) = session_space ?st0"
      by blast
    have "synchronize_page_priv env page_path page_metadata st =
        switch_space k (update_document env document (butlast page_path)) ?st0"
      using l k by (simp add: synchronize_page_priv_def Let_def)
    with n2 t0 s0 k show ?thesis
      by (auto simp: document_space_def)
  next
    case False
    then have d: "document_space document (session_space st) = session_space st"
      by (auto simp: document_space_def split: option.splits)
    have "synchronize_page_priv env page_path page_metadata st =
        update_document env document (butlast page_path) ?st0"
      using l False by (auto simp: synchronize_page_priv_def Let_def split: option.splits)
    with n1 t0 s0 d False show ?thesis by auto
  qed
qed

theorem C7_witness:
  "session_space (snd (synchronize_page_priv demo_env [''docs'', ''a.md''] []
      (demo_state [[''docs'', ''a.md''] \<mapsto>
         ''<!-- confluence-page-id: 42 -->\<newline><!-- confluence-space-key: OPS -->\<newline>Body'']))) = ''DOC'' \<and>
   trace (snd (synchronize_page_priv demo_env [''docs'', ''a.md''] []
      (demo_state [[''docs'', ''a.md''] \<mapsto>
         ''<!-- confluence-page-id: 42 -->\<newline><!-- confluence-space-key: OPS -->\<newline>Body'']))) =
     [Log (Synchronizing_page [''docs'', ''a.md'']),
      Call ''OPS'' (UploadAttachment ''42'' [''docs'', ''figure.png''] ''figure.png'' None),
      Call ''OPS'' (UploadAttachment ''42'' [''EMB'', ''chart''] ''chart'' (Some ''<svg/>'')),
      Log (Generated_document ''\<newline>\<newline>Body''),
      Call ''OPS'' (UpdatePage ''42'' ''\<newline>\<newline>Body'')]"
proof -
  let ?st = "demo_state [[''docs'', ''a.md''] \<mapsto>
         ''<!-- confluence-page-id: 42 -->\<newline><!-- confluence-space-key: OPS -->\<newline>Body'']"
  let ?doc = "\<lparr>doc_id = \<lparr>page_id = ''42'', space_key = Some ''OPS''\<rparr>, images = [[''figure.png'']],
        embedded_images = [(''chart'', ''<svg/>'')], xhtml = ''\<newline>\<newline>Body''\<rparr>"
  have l: "load_document demo_env (files ?st) [''docs'', ''a.md''] [] = Inr ?doc"
    by (simp add: demo_env_def demo_state_def demo_load_document_def extract_qualified_id_def
        parse_comment_def value_char_def)
  have t: "trace (snd (synchronize_page_priv demo_env [''docs'', ''a.md''] [] ?st)) =
     [Log (Synchronizing_page [''docs'', ''a.md'']),
      Call ''OPS'' (UploadAttachment ''42'' [''docs'', ''figure.png''] ''figure.png'' None),
      Call ''OPS'' (UploadAttachment ''42'' [''EMB'', ''chart''] ''chart'' (Some ''<svg/>'')),
      Log (Generated_document ''\<newline>\<newline>Body''),
      Call ''OPS'' (UpdatePage ''42'' ''\<newline>\<newline>Body'')]"
    using l
    by (simp add: synchronize_page_priv_def Let_def log_record_def switch_space_def
        update_document_def upload_attachment_def update_page_def remote_call_def
        demo_env_def demo_state_def)
  from C7_space_switched_and_restored [OF l] t show ?thesis
    by (simp add: demo_state_def)
qed

section \<open>Facts about the identity marker\<close>

lemma marker_comment_length: "length (''<!-- '' @ key @ '': '') = length key + 7"
  by simp

lemma page_id_marker_comment: "page_id_marker v = marker_comment ''confluence-page-id'' v"
  by (simp add: page_id_marker_def marker_comment_def)

lemma space_key_marker_comment: "space_key_marker v = marker_comment ''confluence-space-key'' v"
  by (simp add: space_key_marker_def marker_comment_def)

lemma parse_comment_marker:
  assumes "wf_value v"
  shows "parse_comment key (marker_comment key v @ rest) = Some (v, rest)"
proof -
  let ?pfx = "''<!-- '' @ key @ '': ''"
  have s: "marker_comment key v @ rest = ?pfx @ v @ '' -->'' @ rest"
    by (simp add: marker_comment_def)
  have p: "prefix ?pfx (?pfx @ v @ '' -->'' @ rest)" by (rule prefixI) simp
  have d: "drop (length key + 7) (?pfx @ v @ '' -->'' @ rest) = v @ '' -->'' @ rest"
    unfolding marker_comment_length [symmetric] by (rule append_eq_conv_conj [THEN iffD1, THEN conjunct2, symmetric]) simp
  have all: "\<forall>c \<in> set v. value_char c" using assms by (simp add: wf_value_def list_all_iff)
  have tw: "takeWhile value_char (v @ '' -->'' @ rest) = v"
    using all by (simp add: value_char_def)
  have dw: "dropWhile value_char (v @ '' -->'' @ rest) = '' -->'' @ rest"
    using all by (simp add: value_char_def)
  have ne: "v \<noteq> []" using assms by (simp add: wf_value_def)
  show ?thesis
    unfolding s parse_comment_def using p d tw dw ne
    by (simp only: if_True Let_def) simp
qed

lemma parse_comment_shape:
  assumes "parse_comment key s = Some (v, rest)"
  shows "s = marker_comment key v @ rest \<and> wf_value v"
proof -
  let ?pfx = "''<!-- '' @ key @ '': ''"
  from assms have p: "prefix ?pfx s"
    by (auto simp: parse_comment_def split: if_splits)
  then obtain r where r: "s = ?pfx @ r" by (auto simp: prefix_def)
  have d: "drop (length key + 7) s = r"
    unfolding r marker_comment_length [symmetric] by simp
  from assms p d have v: "v = takeWhile value_char r" "v \<noteq> []"
    and pr: "prefix '' -->'' (dropWhile value_char r)"
    and rest: "rest = drop 4 (dropWhile value_char r)"
    by (auto simp: parse_comment_def Let_def split: if_splits)
  from pr obtain z where z: "dropWhile value_char r = '' -->'' @ z" by (auto simp: prefix_def)
  with rest have "rest = z" by simp
  have "r = takeWhile value_char r @ dropWhile value_char r" by simp
  with v z \<open>rest = z\<close> have "r = v @ '' -->'' @ rest" by simp
  moreover have "list_all value_char v"
    unfolding v by (auto simp: list_all_iff dest: set_takeWhileD)
  ultimately show ?thesis using r v by (simp add: marker_comment_def wf_value_def)
qed

lemma parse_comment_Nil: "parse_comment key [] = None"
  by (simp add: parse_comment_def)

lemma parse_comment_newline: "parse_comment key (CHR 0x0A # s) = None"
  by (simp add: parse_comment_def)

lemma extract_value_None_iff:
  "fst (extract_value key s) = None \<longleftrightarrow> (\<forall>i. parse_comment key (drop i s) = None)"
proof (induction s)
  case Nil
  show ?case by (simp add: parse_comment_Nil)
next
  case (Cons c cs)
  show ?case
  proof (cases "parse_comment key (c # cs)")
    case (Some a)
    then have "fst (extract_value key (c # cs)) \<noteq> None" by (cases a) simp
    moreover from Some have "\<not> (\<forall>i. parse_comment key (drop i (c # cs)) = None)"
      by (auto intro: exI [of _ 0])
    ultimately show ?thesis by blast
  next
    case None
    then have "fst (extract_value key (c # cs)) = fst (extract_value key cs)"
      by (simp split: prod.splits)
    moreover have "(\<forall>i. parse_comment key (drop i (c # cs)) = None) \<longleftrightarrow>
        (\<forall>i. parse_comment key (drop i cs) = None)"
    proof
      assume a: "\<forall>i. parse_comment key (drop i (c # cs)) = None"
      show "\<forall>i. parse_comment key (drop i cs) = None"
      proof
        fix i from a [rule_format, of "Suc i"] show "parse_comment key (drop i cs) = None" by simp
      qed
    next
      assume a: "\<forall>i. parse_comment key (drop i cs) = None"
      show "\<forall>i. parse_comment key (drop i (c # cs)) = None"
      proof
        fix i show "parse_comment key (drop i (c # cs)) = None"
          using a None by (cases i) simp_all
      qed
    qed
    ultimately show ?thesis using Cons.IH by simp
  qed
qed

lemma extract_value_None_snd: "fst (extract_value key s) = None \<Longrightarrow> snd (extract_value key s) = s"
proof (induction s)
  case Nil
  show ?case by simp
next
  case (Cons c cs)
  then show ?case
    by (cases "parse_comment key (c # cs)") (auto split: prod.splits)
qed

lemma extract_value_first:
  assumes "wf_value v"
    and "\<And>i. i < length A \<Longrightarrow> parse_comment key (drop i (A @ marker_comment key v @ rest)) = None"
  shows "extract_value key (A @ marker_comment key v @ rest) = (Some v, A @ rest)"
  using assms(2)
proof (induction A)
  case Nil
  have "marker_comment key v @ rest \<noteq> []" by (simp add: marker_comment_def)
  then obtain c cs where c: "marker_comment key v @ rest = c # cs"
    by (cases "marker_comment key v @ rest") auto
  from parse_comment_marker [OF assms(1), of key rest] c
  have "parse_comment key (c # cs) = Some (v, rest)" by simp
  with c show ?case by simp
next
  case (Cons a A)
  from Cons.prems [of 0] have n: "parse_comment key (a # A @ marker_comment key v @ rest) = None"
    by simp
  have "extract_value key (A @ marker_comment key v @ rest) = (Some v, A @ rest)"
  proof (rule Cons.IH)
    fix i assume "i < length A"
    with Cons.prems [of "Suc i"] show "parse_comment key (drop i (A @ marker_comment key v @ rest)) = None"
      by simp
  qed
  with n show ?case by simp
qed

lemma marker_comment_no_newline:
  assumes "wf_value v" and "CHR 0x0A \<notin> set key"
  shows "CHR 0x0A \<notin> set (marker_comment key v)"
  using assms by (auto simp: marker_comment_def wf_value_def list_all_iff value_char_def)

lemma parse_comment_local:
  assumes "parse_comment key (X @ CHR 0x0A # Y) = Some (v, rest)" and "CHR 0x0A \<notin> set key"
  shows "\<exists>rest'. parse_comment key (X @ Z) = Some (v, rest')"
proof -
  from parse_comment_shape [OF assms(1)]
  have e: "X @ CHR 0x0A # Y = marker_comment key v @ rest" and w: "wf_value v" by simp_all
  from marker_comment_no_newline [OF w assms(2)] have nn: "CHR 0x0A \<notin> set (marker_comment key v)" .
  from e obtain us where "X = marker_comment key v @ us \<and> us @ CHR 0x0A # Y = rest \<or>
      X @ us = marker_comment key v \<and> CHR 0x0A # Y = us @ rest"
    by (auto simp: append_eq_append_conv2)
  then show ?thesis
  proof
    assume "X = marker_comment key v @ us \<and> us @ CHR 0x0A # Y = rest"
    then have "X @ Z = marker_comment key v @ (us @ Z)" by simp
    with parse_comment_marker [OF w, of key "us @ Z"] show ?thesis by simp
  next
    assume a: "X @ us = marker_comment key v \<and> CHR 0x0A # Y = us @ rest"
    show ?thesis
    proof (cases us)
      case Nil
      with a have "X @ Z = marker_comment key v @ Z" by simp
      with parse_comment_marker [OF w, of key Z] show ?thesis by simp
    next
      case (Cons u us')
      with a have "u = CHR 0x0A" by simp
      with Cons a have "CHR 0x0A \<in> set (marker_comment key v)"
        by (metis in_set_conv_decomp)
      with nn show ?thesis by contradiction
    qed
  qed
qed

text \<open>Before the place where the writer puts the markers, no comment can start.\<close>

lemma no_comment_before:
  assumes "fst (extract_value key (A @ B)) = None" and "CHR 0x0A \<notin> set key"
    and "A' = [] \<or> A' = A @ [CHR 0x0A] \<or> A' = A @ [CHR 0x0A, CHR 0x0A]" and "i < length A'"
  shows "parse_comment key (drop i (A' @ Y)) = None"
proof -
  have inA: "parse_comment key (drop j A @ CHR 0x0A # W) = None" if "j < length A" for j W
  proof (rule ccontr)
    assume "parse_comment key (drop j A @ CHR 0x0A # W) \<noteq> None"
    then obtain v rest where "parse_comment key (drop j A @ CHR 0x0A # W) = Some (v, rest)" by auto
    from parse_comment_local [OF this assms(2), of B]
    obtain rest' where "parse_comment key (drop j A @ B) = Some (v, rest')" by blast
    moreover have "drop j A @ B = drop j (A @ B)" using that by simp
    moreover from assms(1) have "parse_comment key (drop j (A @ B)) = None"
      unfolding extract_value_None_iff by blast
    ultimately show False by (simp only: option.distinct)
  qed
  from assms(3) assms(4) consider
      (one) "A' = A @ [CHR 0x0A]" | (two) "A' = A @ [CHR 0x0A, CHR 0x0A]" by auto
  then show ?thesis
  proof cases
    case one
    show ?thesis
    proof (cases "i < length A")
      case True
      with inA [OF True, of Y] one show ?thesis by simp
    next
      case False
      with assms(4) one have "i = length A" by simp
      with one show ?thesis by (simp add: parse_comment_newline)
    qed
  next
    case two
    show ?thesis
    proof (cases "i < length A")
      case True
      with inA [OF True, of "CHR 0x0A # Y"] two show ?thesis by simp
    next
      case False
      with assms(4) two have "i = length A \<or> i = Suc (length A)" by auto
      with two show ?thesis by (auto simp: parse_comment_newline)
    qed
  qed
qed


lemma update_markdown_text_shape:
  "\<exists>A B A'. d = A @ B \<and> (A' = [] \<or> A' = A @ [CHR 0x0A]) \<and>
     update_markdown_text d pid sk = A' @ marker_lines pid sk @ B"
proof (cases "prefix ''---\<newline>'' d")
  case True
  let ?i = "py_find d ''\<newline>---\<newline>'' 4 + 4"
  have "d = slice_to d ?i @ slice_from d ?i" by (simp add: slice_to_def slice_from_def)
  moreover have "update_markdown_text d pid sk =
      (slice_to d ?i @ [CHR 0x0A]) @ marker_lines pid sk @ slice_from d ?i"
    using True by (simp add: update_markdown_text_def marker_lines_def Let_def split: option.splits)
  ultimately show ?thesis by blast
next
  case False
  then have "update_markdown_text d pid sk = [] @ marker_lines pid sk @ d"
    by (simp add: update_markdown_text_def marker_lines_def Let_def slice_from_def slice_index_def
        split: option.splits)
  moreover have "d = [] @ d" by simp
  ultimately show ?thesis by blast
qed

lemma qualified_id_roundtrip:
  assumes u1: "fst (extract_value ''confluence-page-id'' d) = None"
    and u2: "fst (extract_value ''confluence-space-key'' d) = None"
    and w1: "wf_value pid" and w2: "\<And>k. sk = Some k \<Longrightarrow> k = [] \<or> wf_value k"
  shows "fst (extract_qualified_id (update_markdown_text d pid sk)) =
           Some \<lparr>page_id = pid,
                 space_key = (case sk of None \<Rightarrow> None | Some k \<Rightarrow> if k \<noteq> [] then Some k else None)\<rparr>"
proof -
  let ?PK = "''confluence-page-id''" and ?SK = "''confluence-space-key''"
  have nk: "CHR 0x0A \<notin> set ?PK" "CHR 0x0A \<notin> set ?SK" by simp_all
  from update_markdown_text_shape [of d pid sk] obtain A B A' where
    d: "d = A @ B" and A': "A' = [] \<or> A' = A @ [CHR 0x0A]"
    and W: "update_markdown_text d pid sk = A' @ marker_lines pid sk @ B"
    by blast
  from u1 u2 d have v1: "fst (extract_value ?PK (A @ B)) = None"
    and v2: "fst (extract_value ?SK (A @ B)) = None" by simp_all
  from A' have A1: "A' = [] \<or> A' = A @ [CHR 0x0A] \<or> A' = A @ [CHR 0x0A, CHR 0x0A]" by blast
  have first: "extract_value ?PK (A' @ marker_comment ?PK pid @ R) = (Some pid, A' @ R)" for R
    by (rule extract_value_first [OF w1]) (rule no_comment_before [OF v1 nk(1) A1])
  have before2: "parse_comment ?SK (drop i ((A' @ [CHR 0x0A]) @ Y)) = None"
    if "i < length (A' @ [CHR 0x0A])" for i Y
  proof (cases "A' = []")
    case True
    with that have "i = 0" by simp
    with True show ?thesis by (simp add: parse_comment_newline)
  next
    case False
    with A' have "A' @ [CHR 0x0A] = A @ [CHR 0x0A, CHR 0x0A]" by simp
    with no_comment_before [OF v2 nk(2) _ that, of Y] show ?thesis by simp
  qed
  show ?thesis
  proof (cases "\<exists>k. sk = Some k \<and> k \<noteq> []")
    case True
    then obtain k where k: "sk = Some k" "k \<noteq> []" by blast
    with w2 have wk: "wf_value k" by blast
    have ml: "marker_lines pid sk =
        marker_comment ?PK pid @ CHR 0x0A # marker_comment ?SK k @ [CHR 0x0A]"
      using k by (simp add: marker_lines_def page_id_marker_comment space_key_marker_comment)
    have e1: "extract_value ?PK (update_markdown_text d pid sk) =
        (Some pid, (A' @ [CHR 0x0A]) @ marker_comment ?SK k @ CHR 0x0A # B)"
      unfolding W ml using first [of "CHR 0x0A # marker_comment ?SK k @ CHR 0x0A # B"] by simp
    have e2: "extract_value ?SK ((A' @ [CHR 0x0A]) @ marker_comment ?SK k @ CHR 0x0A # B) =
        (Some k, (A' @ [CHR 0x0A]) @ CHR 0x0A # B)"
      by (rule extract_value_first [OF wk]) (rule before2)
    show ?thesis unfolding extract_qualified_id_def e1 using e2 k by simp
  next
    case False
    then have nsk: "(case sk of None \<Rightarrow> None | Some k \<Rightarrow> if k \<noteq> [] then Some k else None) = None"
      by (auto split: option.splits)
    have ml: "marker_lines pid sk = marker_comment ?PK pid @ [CHR 0x0A]"
      using False by (auto simp: marker_lines_def page_id_marker_comment split: option.splits)
    have e1: "extract_value ?PK (update_markdown_text d pid sk) = (Some pid, (A' @ [CHR 0x0A]) @ B)"
      unfolding W ml using first [of "CHR 0x0A # B"] by simp
    have "fst (extract_value ?SK ((A' @ [CHR 0x0A]) @ B)) = None"
      unfolding extract_value_None_iff
    proof
      fix i
      show "parse_comment ?SK (drop i ((A' @ [CHR 0x0A]) @ B)) = None"
      proof (cases "i < length (A' @ [CHR 0x0A])")
        case True
        then show ?thesis by (rule before2)
      next
        case False
        then obtain j where j: "i = length (A' @ [CHR 0x0A]) + j"
          by (metis le_add_diff_inverse not_less)
        have "drop i ((A' @ [CHR 0x0A]) @ B) = drop (j + length A) (A @ B)"
          unfolding j by (simp add: add.commute)
        moreover from v2 have "parse_comment ?SK (drop (j + length A) (A @ B)) = None"
          unfolding extract_value_None_iff by blast
        ultimately show ?thesis by (simp only:)
      qed
    qed
    then obtain T where e2: "extract_value ?SK ((A' @ [CHR 0x0A]) @ B) = (None, T)"
      by (cases "extract_value ?SK ((A' @ [CHR 0x0A]) @ B)") auto
    show ?thesis unfolding extract_qualified_id_def e1 nsk using e2 by simp
  qed
qed


lemma page_id_roundtrip:
  assumes u1: "fst (extract_value ''confluence-page-id'' d) = None" and w1: "wf_value pid"
  shows "\<exists>sk'. fst (extract_qualified_id (update_markdown_text d pid sk)) =
           Some \<lparr>page_id = pid, space_key = sk'\<rparr>"
proof -
  let ?PK = "''confluence-page-id''"
  have nk: "CHR 0x0A \<notin> set ?PK" by simp
  from update_markdown_text_shape [of d pid sk] obtain A B A' where
    d: "d = A @ B" and A': "A' = [] \<or> A' = A @ [CHR 0x0A]"
    and W: "update_markdown_text d pid sk = A' @ marker_lines pid sk @ B"
    by blast
  from u1 d have v1: "fst (extract_value ?PK (A @ B)) = None" by simp
  from A' have A1: "A' = [] \<or> A' = A @ [CHR 0x0A] \<or> A' = A @ [CHR 0x0A, CHR 0x0A]" by blast
  obtain R where ml: "marker_lines pid sk = marker_comment ?PK pid @ R"
    by (simp add: marker_lines_def page_id_marker_comment)
  have "extract_value ?PK (A' @ marker_comment ?PK pid @ R @ B) = (Some pid, A' @ R @ B)"
    by (rule extract_value_first [OF w1]) (rule no_comment_before [OF v1 nk A1])
  then have "extract_value ?PK (update_markdown_text d pid sk) = (Some pid, A' @ R @ B)"
    unfolding W ml by simp
  then show ?thesis
    unfolding extract_qualified_id_def by (auto split: prod.splits)
qed

lemma suffix_unmarked:
  assumes "suffix d text" and "fst (extract_value key text) = None"
  shows "fst (extract_value key d) = None"
proof -
  from assms(1) obtain zs where "text = zs @ d" by (auto simp: suffix_def)
  then have d: "drop i d = drop (length zs + i) text" for i by simp
  from assms(2) show ?thesis unfolding extract_value_None_iff d by blast
qed

lemma unmarked_extract_qualified_id:
  assumes "fst (extract_value ''confluence-page-id'' text) = None"
  shows "extract_qualified_id text = (None, text)"
proof -
  from assms extract_value_None_snd [OF assms]
  have "extract_value ''confluence-page-id'' text = (None, text)"
    by (cases "extract_value ''confluence-page-id'' text") simp
  then show ?thesis unfolding extract_qualified_id_def by simp
qed

lemma marked_run:
  assumes "files st p = Some text" and "fst (extract_qualified_id text) = Some q"
  shows "trace (snd (get_or_create_page env p parent title st)) =
           trace st @ [Call (session_space st) (GetPage (page_id q) (space_key q))] \<and>
         files (snd (get_or_create_page env p parent title st)) = files st"
proof -
  have "snd (get_or_create_page env p parent title st) = snd (get_page env (page_id q) (space_key q) st)"
    unfolding get_or_create_page_marked [OF assms] by (auto split: prod.splits sum.splits)
  then show ?thesis by (simp add: get_page_def remote_call_trace remote_call_files)
qed

text \<open>
  C1. A document whose text has no page id comment is resolved under a parent. If that
  first run returns, it has made exactly one call of the session, the one that gets or
  creates the page, and the page id of that page can be read back from the file. Every
  later run on the file as the first run left it, whatever its parent argument and the
  rest of the state, makes exactly one call of the session, \<open>get_page\<close> with the
  identity read from the file, and writes no file: it does not take the path that
  creates. When the text had no space key comment either, the space key of that identity
  is the one of the page, if it has one. It is assumed that the document that
  \<^verbatim>\<open>extract_frontmatter\<close> hands on is a final part of the text, and that the page id (for
  the last part, also the space key) that the session returns can be read back: not
  empty, no white space.
\<close>

theorem C1_second_run_reuses_identity:
  assumes f: "files st p = Some text"
    and u1: "fst (extract_value ''confluence-page-id'' text) = None"
    and sfx: "suffix (snd (extract_frontmatter env text)) text"
    and run1: "get_or_create_page env p (Some par) None st = (Inr md, st1)"
    and wf: "\<forall>title page r.
        api_get_or_create_page env (remote st) (session_space st) title (page_id par) (space_key par)
          = (Inr page, r) \<longrightarrow> wf_value (cp_id page)"
  shows "(\<exists>title. trace st1 =
            trace st @ [Call (session_space st) (GetOrCreatePage title (page_id par) (space_key par))]) \<and>
         (\<exists>q. read_qualified_id (files st1) p = Inr (Some q) \<and>
              page_id q = md_page_id md \<and>
              (\<forall>st2 parent' title'. files st2 p = files st1 p \<longrightarrow>
                 trace (snd (get_or_create_page env p parent' title' st2)) =
                   trace st2 @ [Call (session_space st2) (GetPage (page_id q) (space_key q))] \<and>
                 files (snd (get_or_create_page env p parent' title' st2)) = files st2) \<and>
              (fst (extract_value ''confluence-space-key'' text) = None \<and>
               (\<forall>title page r k.
                  api_get_or_create_page env (remote st) (session_space st) title (page_id par) (space_key par)
                    = (Inr page, r) \<and> cp_space_key page = Some k \<longrightarrow> k = [] \<or> wf_value k)
               \<longrightarrow> space_key q = None \<or> space_key q = Some (md_space_key md)))"
proof -
  have e: "extract_qualified_id text = (None, text)"
    using u1 by (rule unmarked_extract_qualified_id)
  obtain fm d where fm: "extract_frontmatter env text = (fm, d)"
    by (cases "extract_frontmatter env text") auto
  with sfx have sd: "suffix d text" by simp
  note u = get_or_create_page_unmarked [OF f e fm, of "Some par" None]
  from u run1 obtain t where t: "frontmatter_title env None fm = Inr t"
    by (cases "frontmatter_title env None fm") auto
  let ?title = "case t of None \<Rightarrow> stem p | Some x \<Rightarrow> x"
  obtain answer r where a: "api_get_or_create_page env (remote st) (session_space st) ?title
      (page_id par) (space_key par) = (answer, r)"
    by (cases "api_get_or_create_page env (remote st) (session_space st) ?title
      (page_id par) (space_key par)") auto
  note c = create_page_eq [where title = t and p = p and d = d, OF a]
  from u run1 t c obtain page where page: "answer = Inr page"
    by (cases answer) auto
  let ?st' = "st\<lparr>remote := r, trace := trace st @ [Call (session_space st)
                 (GetOrCreatePage ?title (page_id par) (space_key par))]\<rparr>"
  from u run1 t c page
  have st1: "st1 = update_markdown p d (cp_id page) (cp_space_key page) ?st'"
    and md: "md = page_metadata_of env st1 page"
    by auto
  from wf [rule_format, of ?title page r] a page have w1: "wf_value (cp_id page)" by simp
  let ?W = "update_markdown_text d (cp_id page) (cp_space_key page)"
  from page_id_roundtrip [OF suffix_unmarked [OF sd u1] w1, of "cp_space_key page"]
  obtain sk' where rt: "fst (extract_qualified_id ?W) = Some \<lparr>page_id = cp_id page, space_key = sk'\<rparr>"
    by blast
  let ?q = "\<lparr>page_id = cp_id page, space_key = sk'\<rparr>"
  have fW: "files st1 p = Some ?W" unfolding st1 by (simp add: update_markdown_def)
  have tr: "trace st1 = trace st @ [Call (session_space st) (GetOrCreatePage ?title (page_id par) (space_key par))]"
    unfolding st1 by (simp add: update_markdown_def)
  have rq: "read_qualified_id (files st1) p = Inr (Some ?q)"
    using fW rt by (simp add: read_qualified_id_def)
  have pid: "page_id ?q = md_page_id md" unfolding md by (simp add: page_metadata_of_def)
  have again: "trace (snd (get_or_create_page env p parent' title' st2)) =
                   trace st2 @ [Call (session_space st2) (GetPage (page_id ?q) (space_key ?q))] \<and>
                 files (snd (get_or_create_page env p parent' title' st2)) = files st2"
    if "files st2 p = files st1 p" for st2 :: "'a state" and parent' title'
  proof (rule marked_run [OF _ rt])
    from that fW show "files st2 p = Some ?W" by simp
  qed
  have sk: "space_key ?q = None \<or> space_key ?q = Some (md_space_key md)"
    if u2: "fst (extract_value ''confluence-space-key'' text) = None"
      and wk: "\<forall>title page r k.
                  api_get_or_create_page env (remote st) (session_space st) title (page_id par) (space_key par)
                    = (Inr page, r) \<and> cp_space_key page = Some k \<longrightarrow> k = [] \<or> wf_value k"
  proof -
    from wk a page have w2: "\<And>k. cp_space_key page = Some k \<Longrightarrow> k = [] \<or> wf_value k" by blast
    from qualified_id_roundtrip [OF suffix_unmarked [OF sd u1] suffix_unmarked [OF sd u2] w1 w2] rt
    have "sk' = (case cp_space_key page of None \<Rightarrow> None | Some k \<Rightarrow> if k \<noteq> [] then Some k else None)"
      by simp
    then show ?thesis unfolding md by (simp add: page_metadata_of_def split: option.splits)
  qed
  from tr have "\<exists>title. trace st1 =
      trace st @ [Call (session_space st) (GetOrCreatePage title (page_id par) (space_key par))]"
    by blast
  moreover from rq pid sk again
  have "\<exists>q. read_qualified_id (files st1) p = Inr (Some q) \<and>
              page_id q = md_page_id md \<and>
              (\<forall>st2 parent' title'. files st2 p = files st1 p \<longrightarrow>
                 trace (snd (get_or_create_page env p parent' title' st2)) =
                   trace st2 @ [Call (session_space st2) (GetPage (page_id q) (space_key q))] \<and>
                 files (snd (get_or_create_page env p parent' title' st2)) = files st2) \<and>
              (fst (extract_value ''confluence-space-key'' text) = None \<and>
               (\<forall>title page r k.
                  api_get_or_create_page env (remote st) (session_space st) title (page_id par) (space_key par)
                    = (Inr page, r) \<and> cp_space_key page = Some k \<longrightarrow> k = [] \<or> wf_value k)
               \<longrightarrow> space_key q = None \<or> space_key q = Some (md_space_key md))"
    by (intro exI [of _ ?q]) blast
  ultimately show ?thesis by blast
qed

theorem C1_witness:
  "trace (snd (get_or_create_page demo_env [''docs'', ''a.md'']
        (Some \<lparr>page_id = ''1'', space_key = Some ''DOC''\<rparr>) None
        (demo_state [[''docs'', ''a.md''] \<mapsto> ''Body'']))) =
     [Call ''DOC'' (GetOrCreatePage ''a'' ''1'' (Some ''DOC''))] \<and>
   files (snd (get_or_create_page demo_env [''docs'', ''a.md'']
        (Some \<lparr>page_id = ''1'', space_key = Some ''DOC''\<rparr>) None
        (demo_state [[''docs'', ''a.md''] \<mapsto> ''Body'']))) [''docs'', ''a.md''] =
     Some ''<!-- confluence-page-id: 10 -->\<newline><!-- confluence-space-key: DOC -->\<newline>Body'' \<and>
   trace (snd (get_or_create_page demo_env [''docs'', ''a.md''] None None
      (snd (get_or_create_page demo_env [''docs'', ''a.md'']
        (Some \<lparr>page_id = ''1'', space_key = Some ''DOC''\<rparr>) None
        (demo_state [[''docs'', ''a.md''] \<mapsto> ''Body'']))))) =
     [Call ''DOC'' (GetOrCreatePage ''a'' ''1'' (Some ''DOC'')),
      Call ''DOC'' (GetPage ''10'' (Some ''DOC''))]"
proof -
  let ?p = "[''docs'', ''a.md'']"
  let ?par = "\<lparr>page_id = ''1'', space_key = Some ''DOC''\<rparr>"
  let ?st = "demo_state [?p \<mapsto> ''Body'']"
  let ?md = "\<lparr>md_domain = ''example.atlassian.net'', md_base_path = ''/wiki/'',
     md_page_id = ''10'', md_space_key = ''DOC'', md_title = ''a''\<rparr>"
  let ?st1 = "snd (get_or_create_page demo_env ?p (Some ?par) None ?st)"
  have ev: "get_or_create_page demo_env ?p (Some ?par) None ?st =
      (Inr ?md,
       \<lparr>files = [?p \<mapsto> ''<!-- confluence-page-id: 10 -->\<newline><!-- confluence-space-key: DOC -->\<newline>Body''],
        remote = [(''a'', ''10'')], session_space = ''DOC'',
        trace = [Call ''DOC'' (GetOrCreatePage ''a'' ''1'' (Some ''DOC''))]\<rparr>)"
    by (simp add: get_or_create_page_def demo_state_def demo_env_def extract_qualified_id_def
        parse_comment_def demo_extract_frontmatter_def frontmatter_title_def create_page_def
        get_or_create_page_remote_def remote_call_def demo_get_or_create_def update_markdown_def
        update_markdown_text_def page_id_marker_def space_key_marker_def slice_from_def
        slice_index_def page_metadata_of_def stem_def rfind_dot_def slice_to_def Let_def)
  then have run1: "get_or_create_page demo_env ?p (Some ?par) None ?st = (Inr ?md, ?st1)" by simp
  have f: "files ?st ?p = Some ''Body''" by (simp add: demo_state_def)
  have u1: "fst (extract_value ''confluence-page-id'' ''Body'') = None"
    by (simp add: parse_comment_def)
  have sfx: "suffix (snd (extract_frontmatter demo_env ''Body'')) ''Body''"
    by (simp add: demo_env_def demo_extract_frontmatter_def)
  have wf: "\<forall>title page r.
      api_get_or_create_page demo_env (remote ?st) (session_space ?st) title (page_id ?par) (space_key ?par)
          = (Inr page, r) \<longrightarrow> wf_value (cp_id page)"
    by (auto simp: demo_env_def demo_state_def demo_get_or_create_def wf_value_def value_char_def Let_def)
  from C1_second_run_reuses_identity [OF f u1 sfx run1 wf]
  obtain q where q: "read_qualified_id (files ?st1) ?p = Inr (Some q)"
    and again: "\<forall>st2 parent' title'. files st2 ?p = files ?st1 ?p \<longrightarrow>
                 trace (snd (get_or_create_page demo_env ?p parent' title' st2)) =
                   trace st2 @ [Call (session_space st2) (GetPage (page_id q) (space_key q))] \<and>
                 files (snd (get_or_create_page demo_env ?p parent' title' st2)) = files st2"
    by blast
  from q have "q = \<lparr>page_id = ''10'', space_key = Some ''DOC''\<rparr>"
    unfolding ev by (simp add: read_qualified_id_def extract_qualified_id_def parse_comment_def value_char_def)
  with again [rule_format, of ?st1 None None]
  have "trace (snd (get_or_create_page demo_env ?p None None ?st1)) =
      trace ?st1 @ [Call (session_space ?st1) (GetPage ''10'' (Some ''DOC''))]"
    by simp
  then show ?thesis unfolding ev by simp
qed

section \<open>Claims about the Directory Indexer\<close>

lemma scandir_files:
  "set (fst (scandir env local_dir es)) =
     {local_dir @ [name] | name. File_entry name \<in> set es \<and> \<not> is_excluded env local_dir name False}"
proof (induction es)
  case Nil
  show ?case by simp
next
  case (Cons e es)
  then show ?case by (cases e) (auto split: prod.splits)
qed

lemma index_directory_representative:
  assumes "parent_doc local_dir (fst (scandir env local_dir entries)) = Some rep"
  shows "index_directory env local_dir entries root_id page_metadata st =
           (case get_or_create_page env rep root_id None (log_record (Indexing_directory local_dir) st) of
              (Inl e, st1) \<Rightarrow> (Inl e, st1)
            | (Inr md, st1) \<Rightarrow>
               (case read_qualified_id (files st1) rep of
                  Inl e \<Rightarrow> (Inl e, log_record (Indexed_parent rep md) st1)
                | Inr q \<Rightarrow>
                   (case index_files env (case q of Some i \<Rightarrow> Some i | None \<Rightarrow> root_id)
                           (remove1 rep (fst (scandir env local_dir entries)))
                           (AList.update rep md page_metadata)
                           (log_record (Indexed_parent rep md) st1) of
                      (Inl e, st2) \<Rightarrow> (Inl e, st2)
                    | (Inr page_metadata2, st2) \<Rightarrow>
                        index_directories env (snd (scandir env local_dir entries))
                          (case q of Some i \<Rightarrow> Some i | None \<Rightarrow> root_id) page_metadata2 st2)))"
proof -
  obtain res st1 where g: "get_or_create_page env rep root_id None (log_record (Indexing_directory local_dir) st) = (res, st1)"
    by (cases "get_or_create_page env rep root_id None (log_record (Indexing_directory local_dir) st)") auto
  have fl: "files (log_record l s) = files s" for l and s :: "'a state"
    by (simp add: log_record_def)
  show ?thesis
    by (subst index_directory.simps)
       (simp add: index_parent_def assms Let_def fl g split: sum.splits)
qed

lemmas demo_simps =
  get_or_create_page_def demo_state_def demo_env_def extract_qualified_id_def
  parse_comment_def value_char_def demo_extract_frontmatter_def frontmatter_title_def create_page_def
  get_or_create_page_remote_def get_page_def remote_call_def demo_get_or_create_def update_markdown_def
  update_markdown_text_def page_id_marker_def space_key_marker_def slice_from_def
  slice_index_def page_metadata_of_def stem_def rfind_dot_def slice_to_def Let_def
  index_parent_def parent_doc_def read_qualified_id_def log_record_def py_find_def
  demo_safe_load_def property_title_def

text \<open>
  C4. When the listing of a directory has both \<open>index.md\<close> and \<open>README.md\<close> as files that
  the matcher lets through, the representative document is \<open>index.md\<close> (the names are
  compared as they are written, and only one document is chosen). It is taken out of the
  files and resolved first, under the inherited parent; \<open>README.md\<close> stays among the
  plain files, which are resolved after it, under the parent that follows from \<open>index.md\<close>.
\<close>

theorem C4_index_md_is_the_representative:
  assumes "File_entry ''index.md'' \<in> set entries" and "\<not> is_excluded env local_dir ''index.md'' False"
    and "File_entry ''README.md'' \<in> set entries" and "\<not> is_excluded env local_dir ''README.md'' False"
  shows "parent_doc local_dir (fst (scandir env local_dir entries)) = Some (local_dir @ [''index.md'']) \<and>
         local_dir @ [''README.md''] \<in>
           set (remove1 (local_dir @ [''index.md'']) (fst (scandir env local_dir entries))) \<and>
         index_directory env local_dir entries root_id page_metadata st =
           (case get_or_create_page env (local_dir @ [''index.md'']) root_id None
                   (log_record (Indexing_directory local_dir) st) of
              (Inl e, st1) \<Rightarrow> (Inl e, st1)
            | (Inr md, st1) \<Rightarrow>
               (case read_qualified_id (files st1) (local_dir @ [''index.md'']) of
                  Inl e \<Rightarrow> (Inl e, log_record (Indexed_parent (local_dir @ [''index.md'']) md) st1)
                | Inr q \<Rightarrow>
                   (case index_files env (case q of Some i \<Rightarrow> Some i | None \<Rightarrow> root_id)
                           (remove1 (local_dir @ [''index.md'']) (fst (scandir env local_dir entries)))
                           (AList.update (local_dir @ [''index.md'']) md page_metadata)
                           (log_record (Indexed_parent (local_dir @ [''index.md'']) md) st1) of
                      (Inl e, st2) \<Rightarrow> (Inl e, st2)
                    | (Inr page_metadata2, st2) \<Rightarrow>
                        index_directories env (snd (scandir env local_dir entries))
                          (case q of Some i \<Rightarrow> Some i | None \<Rightarrow> root_id) page_metadata2 st2)))"
proof -
  from assms(1,2) have i: "local_dir @ [''index.md''] \<in> set (fst (scandir env local_dir entries))"
    unfolding scandir_files by blast
  from assms(3,4) have r: "local_dir @ [''README.md''] \<in> set (fst (scandir env local_dir entries))"
    unfolding scandir_files by blast
  from i have p: "parent_doc local_dir (fst (scandir env local_dir entries)) = Some (local_dir @ [''index.md''])"
    by (simp add: parent_doc_def)
  have "local_dir @ [''README.md''] \<noteq> local_dir @ [''index.md'']" by simp
  with r have "local_dir @ [''README.md''] \<in>
      set (remove1 (local_dir @ [''index.md'']) (fst (scandir env local_dir entries)))"
    by simp
  with p index_directory_representative [OF p] show ?thesis by blast
qed

theorem C4_witness:
  "remote_calls (trace (snd (index_directory demo_env [''docs''] [File_entry ''README.md'', File_entry ''index.md'']
   (Some \<lparr>page_id = ''1'', space_key = Some ''DOC''\<rparr>) []
   (demo_state [[''docs'', ''index.md''] \<mapsto> ''<!-- confluence-page-id: 7 -->\<newline>Home'',
                [''docs'', ''README.md''] \<mapsto> ''Read me''])))) =
   [GetPage ''7'' None, GetOrCreatePage ''README'' ''7'' None]"
  using C4_index_md_is_the_representative [where entries = "[File_entry ''README.md'', File_entry ''index.md'']"
     and env = demo_env and local_dir = "[''docs'']"
     and root_id = "Some \<lparr>page_id = ''1'', space_key = Some ''DOC''\<rparr>" and page_metadata = "[]"
     and st = "demo_state [[''docs'', ''index.md''] \<mapsto> ''<!-- confluence-page-id: 7 -->\<newline>Home'',
                [''docs'', ''README.md''] \<mapsto> ''Read me'']"]
  by (simp add: demo_simps)

lemma unmarked_run:
  assumes f: "files st p = Some text"
    and u1: "fst (extract_value ''confluence-page-id'' text) = None"
    and run: "get_or_create_page env p parent None st = (Inr md, st1)"
  shows "\<exists>par page title r. parent = Some par \<and>
           api_get_or_create_page env (remote st) (session_space st) title (page_id par) (space_key par)
             = (Inr page, r) \<and>
           md = page_metadata_of env st1 page \<and>
           st1 = update_markdown p (snd (extract_frontmatter env text)) (cp_id page) (cp_space_key page)
                   (st\<lparr>remote := r, trace := trace st @
                      [Call (session_space st) (GetOrCreatePage title (page_id par) (space_key par))]\<rparr>)"
proof -
  have e: "extract_qualified_id text = (None, text)"
    using u1 by (rule unmarked_extract_qualified_id)
  obtain fm d where fm: "extract_frontmatter env text = (fm, d)"
    by (cases "extract_frontmatter env text") auto
  note u = get_or_create_page_unmarked [OF f e fm, of parent None]
  from u run obtain par where par: "parent = Some par" by (cases parent) auto
  from u run par obtain t where t: "frontmatter_title env None fm = Inr t"
    by (cases "frontmatter_title env None fm") auto
  let ?title = "case t of None \<Rightarrow> stem p | Some x \<Rightarrow> x"
  obtain answer r where a: "api_get_or_create_page env (remote st) (session_space st) ?title
      (page_id par) (space_key par) = (answer, r)"
    by (cases "api_get_or_create_page env (remote st) (session_space st) ?title
      (page_id par) (space_key par)") auto
  note c = create_page_eq [where title = t and p = p and d = d, OF a]
  from u run par t c obtain page where page: "answer = Inr page"
    by (cases answer) auto
  from u run par t c page
  have "st1 = update_markdown p d (cp_id page) (cp_space_key page)
          (st\<lparr>remote := r, trace := trace st @
             [Call (session_space st) (GetOrCreatePage ?title (page_id par) (space_key par))]\<rparr>)"
    and "md = page_metadata_of env st1 page"
    by auto
  with par a page fm show ?thesis by auto
qed

text \<open>
  C3, as amended. When a directory has a representative document and its resolution
  (under the inherited parent) returns, the parent under which every other file of the
  directory is resolved, and which every subdirectory inherits, is the identity read back
  from the file of the representative: the identity that was embedded in it, or the one
  that was just persisted for it (when the session returns an identity that can be read
  back). The inherited parent is used only when no identity can be read back. A
  subdirectory is indexed with that parent as its inherited parent, so a representative of
  its own replaces it there.
\<close>

theorem C3_representative_identity_is_the_parent:
  assumes rep: "parent_doc local_dir (fst (scandir env local_dir entries)) = Some rep"
    and f: "files st rep = Some text"
    and run: "get_or_create_page env rep root_id None (log_record (Indexing_directory local_dir) st)
                = (Inr md, st1)"
  shows "\<exists>q. read_qualified_id (files st1) rep = Inr q \<and>
           (\<forall>q0. fst (extract_qualified_id text) = Some q0 \<longrightarrow> q = Some q0) \<and>
           (fst (extract_value ''confluence-page-id'' text) = None \<and>
            suffix (snd (extract_frontmatter env text)) text \<and>
            (\<forall>par title page r. root_id = Some par \<and>
               api_get_or_create_page env (remote st) (session_space st) title (page_id par) (space_key par)
                 = (Inr page, r) \<longrightarrow> wf_value (cp_id page))
            \<longrightarrow> (\<exists>i. q = Some i \<and> page_id i = md_page_id md)) \<and>
           index_directory env local_dir entries root_id page_metadata st =
             (case index_files env (case q of Some i \<Rightarrow> Some i | None \<Rightarrow> root_id)
                     (remove1 rep (fst (scandir env local_dir entries)))
                     (AList.update rep md page_metadata)
                     (log_record (Indexed_parent rep md) st1) of
                (Inl e, st2) \<Rightarrow> (Inl e, st2)
              | (Inr page_metadata2, st2) \<Rightarrow>
                  index_directories env (snd (scandir env local_dir entries))
                    (case q of Some i \<Rightarrow> Some i | None \<Rightarrow> root_id) page_metadata2 st2)"
proof -
  let ?st0 = "log_record (Indexing_directory local_dir) st"
  have f0: "files ?st0 rep = Some text" and r0: "remote ?st0 = remote st"
    and s0: "session_space ?st0 = session_space st"
    using f by (simp_all add: log_record_def)
  have ex: "\<exists>w. files st1 rep = Some w"
  proof (cases "fst (extract_qualified_id text)")
    case (Some q0)
    from marked_run [OF f0 Some, of env root_id None] run f0 show ?thesis by simp
  next
    case None
    then have "fst (extract_value ''confluence-page-id'' text) = None"
      by (auto simp: extract_qualified_id_def split: prod.splits option.splits)
    from unmarked_run [OF f0 this run] show ?thesis by (auto simp: update_markdown_def)
  qed
  then obtain w where w: "files st1 rep = Some w" by blast
  let ?q = "fst (extract_qualified_id w)"
  have rq: "read_qualified_id (files st1) rep = Inr ?q"
    using w by (simp add: read_qualified_id_def)
  have emb: "?q = Some q0" if "fst (extract_qualified_id text) = Some q0" for q0
  proof -
    from marked_run [OF f0 that, of env root_id None] run have "files st1 = files ?st0" by simp
    with w f0 that show ?thesis by simp
  qed
  have fresh: "\<exists>i. ?q = Some i \<and> page_id i = md_page_id md"
    if u1: "fst (extract_value ''confluence-page-id'' text) = None"
      and sfx: "suffix (snd (extract_frontmatter env text)) text"
      and wf: "\<forall>par title page r. root_id = Some par \<and>
               api_get_or_create_page env (remote st) (session_space st) title (page_id par) (space_key par)
                 = (Inr page, r) \<longrightarrow> wf_value (cp_id page)"
  proof -
    from unmarked_run [OF f0 u1 run] r0 s0 obtain par page title r where
      par: "root_id = Some par"
      and a: "api_get_or_create_page env (remote st) (session_space st) title (page_id par) (space_key par)
             = (Inr page, r)"
      and md: "md = page_metadata_of env st1 page"
      and st1: "files st1 rep = Some (update_markdown_text (snd (extract_frontmatter env text))
                  (cp_id page) (cp_space_key page))"
      by (auto simp: update_markdown_def)
    from wf par a have w1: "wf_value (cp_id page)" by blast
    from page_id_roundtrip [OF suffix_unmarked [OF sfx u1] w1, of "cp_space_key page"] st1 w md
    show ?thesis by (auto simp: page_metadata_of_def)
  qed
  from index_directory_representative [OF rep, of root_id page_metadata st] run rq
  have "index_directory env local_dir entries root_id page_metadata st =
             (case index_files env (case ?q of Some i \<Rightarrow> Some i | None \<Rightarrow> root_id)
                     (remove1 rep (fst (scandir env local_dir entries)))
                     (AList.update rep md page_metadata)
                     (log_record (Indexed_parent rep md) st1) of
                (Inl e, st2) \<Rightarrow> (Inl e, st2)
              | (Inr page_metadata2, st2) \<Rightarrow>
                  index_directories env (snd (scandir env local_dir entries))
                    (case ?q of Some i \<Rightarrow> Some i | None \<Rightarrow> root_id) page_metadata2 st2)"
    by simp
  with rq emb fresh show ?thesis by (intro exI [of _ ?q]) blast
qed

theorem C3_witness:
  "remote_calls (trace (snd (index_directory demo_env [''docs'']
     [File_entry ''index.md'', File_entry ''a.md'', Dir_entry ''sub'' [File_entry ''b.md'']]
     (Some \<lparr>page_id = ''1'', space_key = Some ''DOC''\<rparr>) []
     (demo_state [[''docs'', ''index.md''] \<mapsto> ''Home'',
                [''docs'', ''a.md''] \<mapsto> ''Body'',
                [''docs'', ''sub'', ''b.md''] \<mapsto> ''Body''])))) =
     [GetOrCreatePage ''index'' ''1'' (Some ''DOC''),
      GetOrCreatePage ''a'' ''10'' (Some ''DOC''),
      GetOrCreatePage ''b'' ''10'' (Some ''DOC'')]"
proof -
  let ?entries = "[File_entry ''index.md'', File_entry ''a.md'', Dir_entry ''sub'' [File_entry ''b.md'']]"
  let ?root = "Some \<lparr>page_id = ''1'', space_key = Some ''DOC''\<rparr>"
  let ?st = "demo_state [[''docs'', ''index.md''] \<mapsto> ''Home'',
                [''docs'', ''a.md''] \<mapsto> ''Body'',
                [''docs'', ''sub'', ''b.md''] \<mapsto> ''Body'']"
  let ?md = "\<lparr>md_domain = ''example.atlassian.net'', md_base_path = ''/wiki/'',
     md_page_id = ''10'', md_space_key = ''DOC'', md_title = ''index''\<rparr>"
  let ?run = "get_or_create_page demo_env [''docs'', ''index.md''] ?root None
                (log_record (Indexing_directory [''docs'']) ?st)"
  have rep: "parent_doc [''docs''] (fst (scandir demo_env [''docs''] ?entries)) = Some [''docs'', ''index.md'']"
    by (simp add: demo_simps)
  have f: "files ?st [''docs'', ''index.md''] = Some ''Home''" by (simp add: demo_state_def)
  have "fst ?run = Inr ?md" by (simp add: demo_simps)
  then have run: "?run = (Inr ?md, snd ?run)" by (simp add: prod_eq_iff)
  from C3_representative_identity_is_the_parent [OF rep f run, of "[]"]
  show ?thesis by (simp add: demo_simps)
qed

text \<open>
  C3 as stated fails for a file in a subdirectory that has a representative of its own:
  \<open>docs/index.md\<close> has the identity 7 and \<open>docs/sub/index.md\<close> the identity 8; the page
  of \<open>docs/sub/a.md\<close> is created under 8, not under 7.
\<close>

theorem C3_counterexample:
  "parent_doc [''docs''] (fst (scandir demo_env [''docs'']
      [File_entry ''index.md'', Dir_entry ''sub'' [File_entry ''index.md'', File_entry ''a.md'']]))
     = Some [''docs'', ''index.md''] \<and>
   remote_calls (trace (snd (index_directory demo_env [''docs'']
     [File_entry ''index.md'', Dir_entry ''sub'' [File_entry ''index.md'', File_entry ''a.md'']]
     (Some \<lparr>page_id = ''1'', space_key = Some ''DOC''\<rparr>) []
     (demo_state [[''docs'', ''index.md''] \<mapsto> ''<!-- confluence-page-id: 7 -->\<newline>Home'',
                [''docs'', ''sub'', ''index.md''] \<mapsto> ''<!-- confluence-page-id: 8 -->\<newline>Sub'',
                [''docs'', ''sub'', ''a.md''] \<mapsto> ''Body''])))) =
     [GetPage ''7'' None, GetPage ''8'' None, GetOrCreatePage ''a'' ''8'' None]"
  by (simp add: demo_simps)

section \<open>Claims about directory mode\<close>

lemma get_or_create_page_events:
  "\<exists>es. trace (snd (get_or_create_page env p parent title st)) = trace st @ es \<and>
        list_all index_event es"
proof (cases "files st p")
  case None
  then show ?thesis by (simp add: get_or_create_page_def)
next
  case (Some t)
  obtain qid d where e: "extract_qualified_id t = (qid, d)"
    by (cases "extract_qualified_id t") auto
  obtain fm d' where f: "extract_frontmatter env d = (fm, d')"
    by (cases "extract_frontmatter env d") auto
  show ?thesis
  proof (cases qid)
    case (Some q)
    with e have "fst (extract_qualified_id t) = Some q" by simp
    from marked_run [OF \<open>files st p = Some t\<close> this, of env parent title]
    show ?thesis by simp
  next
    case None
    with e have e': "extract_qualified_id t = (None, d)" by simp
    note u = get_or_create_page_unmarked [OF \<open>files st p = Some t\<close> e' f, of parent title]
    show ?thesis
    proof (cases parent)
      case None
      with u show ?thesis by simp
    next
      case (Some par)
      show ?thesis
      proof (cases "frontmatter_title env title fm")
        case (Inl x)
        with u Some show ?thesis by simp
      next
        case (Inr tt)
        with u Some have "snd (get_or_create_page env p parent title st) = snd (create_page env p d' tt par st)"
          by (auto split: prod.splits sum.splits)
        then show ?thesis by (simp add: create_page_trace)
      qed
    qed
  qed
qed

lemma index_parent_events:
  "\<exists>es. trace (snd (index_parent env local_dir fs root_id pm st)) = trace st @ es \<and>
        list_all index_event es"
proof (cases "parent_doc local_dir fs")
  case None
  then show ?thesis by (simp add: index_parent_def)
next
  case (Some pd)
  obtain res st1 where g: "get_or_create_page env pd root_id None st = (res, st1)"
    by (cases "get_or_create_page env pd root_id None st") auto
  from get_or_create_page_events [of env pd root_id None st] g
  obtain es where es: "trace st1 = trace st @ es" "list_all index_event es" by auto
  show ?thesis
  proof (cases res)
    case (Inl e)
    with Some g es show ?thesis by (simp add: index_parent_def)
  next
    case (Inr md)
    have "trace (snd (index_parent env local_dir fs root_id pm st)) =
        trace st @ es @ [Log (Indexed_parent pd md)]"
      using Some g Inr es
      by (simp add: index_parent_def Let_def log_record_def split: sum.splits)
    with es show ?thesis by (intro exI [of _ "es @ [Log (Indexed_parent pd md)]"]) simp
  qed
qed

lemma index_parent_distinct:
  assumes "index_parent env local_dir fs root_id pm st = (Inr (fs', parent, pm'), st')"
    and "distinct (map fst pm)"
  shows "distinct (map fst pm')"
  using assms
  by (auto simp: index_parent_def Let_def distinct_update
      split: option.splits prod.splits sum.splits)

lemma index_files_events:
  "\<exists>es. trace (snd (index_files env parent fs pm st)) = trace st @ es \<and> list_all index_event es"
proof (induction fs arbitrary: pm st)
  case Nil
  show ?case by simp
next
  case (Cons doc docs)
  obtain res st1 where g: "get_or_create_page env doc parent None st = (res, st1)"
    by (cases "get_or_create_page env doc parent None st") auto
  from get_or_create_page_events [of env doc parent None st] g
  obtain es where es: "trace st1 = trace st @ es" "list_all index_event es" by auto
  show ?case
  proof (cases res)
    case (Inl e)
    with g es show ?thesis by simp
  next
    case (Inr md)
    from Cons.IH [of "AList.update doc md pm" "log_record (Indexed_doc doc md) st1"]
    obtain es' where "trace (snd (index_files env parent docs (AList.update doc md pm)
        (log_record (Indexed_doc doc md) st1))) = trace (log_record (Indexed_doc doc md) st1) @ es'"
      "list_all index_event es'" by blast
    with g Inr es show ?thesis
      by (intro exI [of _ "es @ Log (Indexed_doc doc md) # es'"]) (simp add: log_record_def)
  qed
qed

lemma index_files_distinct:
  "index_files env parent fs pm st = (Inr pm', st') \<Longrightarrow> distinct (map fst pm) \<Longrightarrow>
   distinct (map fst pm')"
proof (induction fs arbitrary: pm st)
  case Nil
  then show ?case by simp
next
  case (Cons doc docs)
  then show ?case
    by (auto simp: distinct_update split: prod.splits sum.splits)
qed

lemma index_directory_events:
  "(\<exists>es. trace (snd (index_directory env local_dir entries root_id pm st)) = trace st @ es \<and>
         list_all index_event es) \<and>
   (\<forall>pm'. fst (index_directory env local_dir entries root_id pm st) = Inr pm' \<longrightarrow>
      distinct (map fst pm) \<longrightarrow> distinct (map fst pm'))"
  and index_directories_events:
  "(\<exists>es. trace (snd (index_directories env ds parent pm st)) = trace st @ es \<and>
         list_all index_event es) \<and>
   (\<forall>pm'. fst (index_directories env ds parent pm st) = Inr pm' \<longrightarrow>
      distinct (map fst pm) \<longrightarrow> distinct (map fst pm'))"
proof (induction env local_dir entries root_id pm st and env ds parent pm st
    rule: index_directory_index_directories.induct)
  case (1 env local_dir entries root_id page_metadata st)
  let ?st0 = "log_record (Indexing_directory local_dir) st"
  obtain r1 st1 where ip: "index_parent env local_dir (fst (scandir env local_dir entries)) root_id
      page_metadata ?st0 = (r1, st1)"
    by (cases "index_parent env local_dir (fst (scandir env local_dir entries)) root_id
      page_metadata ?st0") auto
  from index_parent_events [of env local_dir "fst (scandir env local_dir entries)" root_id page_metadata ?st0] ip
  obtain es1 where es1: "trace st1 = trace st @ Log (Indexing_directory local_dir) # es1"
    "list_all index_event es1" by (auto simp: log_record_def)
  show ?case
  proof (cases r1)
    case (Inl e)
    with ip es1 show ?thesis
      by (subst (1 2) index_directory.simps) (simp add: exI [of _ "Log (Indexing_directory local_dir) # es1"])
  next
    case (Inr x)
    obtain fs parent_id pm1 where x: "x = (fs, parent_id, pm1)" by (cases x) auto
    obtain r2 st2 where fi: "index_files env parent_id fs pm1 st1 = (r2, st2)"
      by (cases "index_files env parent_id fs pm1 st1") auto
    from index_files_events [of env parent_id fs pm1 st1] fi
    obtain es2 where es2: "trace st2 = trace st1 @ es2" "list_all index_event es2" by auto
    show ?thesis
    proof (cases r2)
      case (Inl e)
      with ip fi Inr x es1 es2 show ?thesis
        by (subst (1 2) index_directory.simps)
           (simp add: exI [of _ "Log (Indexing_directory local_dir) # es1 @ es2"])
    next
      case (Inr pm2)
      have eq: "index_directory env local_dir entries root_id page_metadata st =
          index_directories env (snd (scandir env local_dir entries)) parent_id pm2 st2"
        using ip fi \<open>r1 = Inr x\<close> x Inr by (subst index_directory.simps) simp
      note IH = "1.IH" [OF ip [symmetric] \<open>r1 = Inr x\<close> x [symmetric] refl fi [symmetric] Inr]
      from IH obtain es3 where es3:
        "trace (snd (index_directories env (snd (scandir env local_dir entries)) parent_id pm2 st2))
           = trace st2 @ es3" "list_all index_event es3" by blast
      have d: "distinct (map fst pm2)" if "distinct (map fst page_metadata)"
        using index_files_distinct [OF fi [unfolded Inr]]
          index_parent_distinct [OF ip [unfolded \<open>r1 = Inr x\<close> x]] that by blast
      show ?thesis unfolding eq using es1 es2 es3 IH d
        by (auto intro!: exI [of _ "Log (Indexing_directory local_dir) # es1 @ es2 @ es3"])
    qed
  qed
next
  case (2 env parent_id page_metadata st)
  show ?case by simp
next
  case (3 env directory rest parent_id page_metadata st)
  obtain r1 st1 where g: "index_directory env (fst directory) (snd directory) parent_id page_metadata st = (r1, st1)"
    by (cases "index_directory env (fst directory) (snd directory) parent_id page_metadata st") auto
  from "3.IH"(1) g obtain es1 where es1: "trace st1 = trace st @ es1" "list_all index_event es1"
    and d1: "\<forall>pm'. r1 = Inr pm' \<longrightarrow> distinct (map fst page_metadata) \<longrightarrow> distinct (map fst pm')"
    by auto
  show ?case
  proof (cases r1)
    case (Inl e)
    with g es1 show ?thesis by simp
  next
    case (Inr pm1)
    note IH = "3.IH"(2) [OF g [symmetric] Inr]
    from IH obtain es2 where es2:
      "trace (snd (index_directories env rest parent_id pm1 st1)) = trace st1 @ es2"
      "list_all index_event es2" by blast
    from g Inr es1 es2 IH d1 show ?thesis
      by (auto intro!: exI [of _ "es1 @ es2"])
  qed
qed


lemma synchronized_paths_append:
  "synchronized_paths (xs @ ys) = synchronized_paths xs @ synchronized_paths ys"
  by (induction xs rule: synchronized_paths.induct) simp_all

lemma document_events_sync:
  "list_all sync_event (take n (document_events env document base_path s)) \<and>
   synchronized_paths (take n (document_events env document base_path s)) = []"
proof -
  have a: "list_all sync_event es \<and> synchronized_paths es = []"
    if "\<And>e. e \<in> set es \<Longrightarrow> (\<exists>pid source name raw. e = Call s (UploadAttachment pid source name raw)) \<or>
          (\<exists>c. e = Log (Generated_document c)) \<or> (\<exists>pid c. e = Call s (UpdatePage pid c))" for es
    using that
  proof (induction es)
    case Nil
    show ?case by simp
  next
    case (Cons e es)
    have IH: "list_all sync_event es \<and> synchronized_paths es = []"
      by (rule Cons.IH) (simp add: Cons.prems)
    from Cons.prems [of e]
    have "(\<exists>pid source name raw. e = Call s (UploadAttachment pid source name raw)) \<or>
          (\<exists>c. e = Log (Generated_document c)) \<or> (\<exists>pid c. e = Call s (UpdatePage pid c))"
      by simp
    then have "sync_event e \<and> synchronized_paths (e # es) = synchronized_paths es" by auto
    with IH show ?case by simp
  qed
  show ?thesis
  proof (rule a)
    fix e assume "e \<in> set (take n (document_events env document base_path s))"
    then have "e \<in> set (document_events env document base_path s)" by (rule in_set_takeD)
    then show "(\<exists>pid source name raw. e = Call s (UploadAttachment pid source name raw)) \<or>
          (\<exists>c. e = Log (Generated_document c)) \<or> (\<exists>pid c. e = Call s (UpdatePage pid c))"
      by (auto simp: document_events_def upload_events_def)
  qed
qed

lemma synchronize_page_priv_events:
  "\<exists>es. trace (snd (synchronize_page_priv env p pm st)) = trace st @ Log (Synchronizing_page p) # es \<and>
        list_all sync_event es \<and> synchronized_paths es = []"
proof -
  let ?st0 = "log_record (Synchronizing_page p) st"
  have t0: "trace ?st0 = trace st @ [Log (Synchronizing_page p)]" by (simp add: log_record_def)
  show ?thesis
  proof (cases "load_document env (files ?st0) p pm")
    case (Inl msg)
    then have "synchronize_page_priv env p pm st = (Inl (Document_error msg), ?st0)"
      by (simp add: synchronize_page_priv_def Let_def)
    with t0 show ?thesis by simp
  next
    case (Inr document)
    show ?thesis
    proof (cases "\<exists>k. space_key (doc_id document) = Some k \<and> k \<noteq> []")
      case True
      then obtain k where k: "space_key (doc_id document) = Some k" "k \<noteq> []" by blast
      from switch_space_update_document [of env document "butlast p" k ?st0]
      obtain n where "trace (snd (switch_space k (update_document env document (butlast p)) ?st0)) =
           trace ?st0 @ take n (document_events env document (butlast p) k)" by blast
      moreover have "synchronize_page_priv env p pm st =
          switch_space k (update_document env document (butlast p)) ?st0"
        using Inr k by (simp add: synchronize_page_priv_def Let_def)
      ultimately show ?thesis using t0 document_events_sync [of n env document "butlast p" k]
        by (intro exI [of _ "take n (document_events env document (butlast p) k)"]) simp
    next
      case False
      from update_document_events [of env document "butlast p" ?st0]
      obtain n where "trace (snd (update_document env document (butlast p) ?st0)) =
           trace ?st0 @ take n (document_events env document (butlast p) (session_space ?st0))" by blast
      moreover have "synchronize_page_priv env p pm st = update_document env document (butlast p) ?st0"
        using Inr False by (auto simp: synchronize_page_priv_def Let_def split: option.splits)
      ultimately show ?thesis
        using t0 document_events_sync [of n env document "butlast p" "session_space ?st0"]
        by (intro exI [of _ "take n (document_events env document (butlast p) (session_space ?st0))"]) simp
    qed
  qed
qed

lemma synchronize_pages_events:
  "\<exists>es. trace (snd (synchronize_pages env ps pm st)) = trace st @ es \<and>
        list_all sync_event es \<and> prefix (synchronized_paths es) ps \<and>
        (\<forall>u. fst (synchronize_pages env ps pm st) = Inr u \<longrightarrow> synchronized_paths es = ps)"
proof (induction ps arbitrary: st)
  case Nil
  show ?case by simp
next
  case (Cons p ps)
  obtain r1 st1 where g: "synchronize_page_priv env p pm st = (r1, st1)"
    by (cases "synchronize_page_priv env p pm st") auto
  from synchronize_page_priv_events [of env p pm st] g
  obtain es1 where es1: "trace st1 = trace st @ Log (Synchronizing_page p) # es1"
    "list_all sync_event es1" "synchronized_paths es1 = []" by auto
  show ?case
  proof (cases r1)
    case (Inl e)
    with g es1 show ?thesis
      by (intro exI [of _ "Log (Synchronizing_page p) # es1"]) simp
  next
    case (Inr u)
    from Cons.IH [of st1] obtain es2 where es2:
      "trace (snd (synchronize_pages env ps pm st1)) = trace st1 @ es2"
      "list_all sync_event es2" "prefix (synchronized_paths es2) ps"
      "\<forall>u. fst (synchronize_pages env ps pm st1) = Inr u \<longrightarrow> synchronized_paths es2 = ps"
      by blast
    with g Inr es1 show ?thesis
      by (intro exI [of _ "Log (Synchronizing_page p) # es1 @ es2"])
         (simp add: synchronized_paths_append)
  qed
qed

text \<open>
  C9. In directory mode the run has two phases. After the record that the directory is
  synchronized, the trace has events of indexing only (the records of the indexer and the
  calls \<open>get_page\<close> and \<open>get_or_create_page\<close>), up to the state in which the indexer has
  returned the Identity Map; if the indexer fails, the run ends there. Then comes the
  record of the number of indexed pages, and after it events of synchronizing only. The
  paths of the Identity Map are distinct (one entry for each), and the pages whose
  synchronization is started are these paths, in the order of the map: an initial part
  of them when a page fails, all of them when the run returns.
\<close>

theorem C9_index_then_synchronize:
  "\<exists>idx sync. list_all index_event idx \<and> list_all sync_event sync \<and>
     (case index_directory env local_dir entries
             (root_id_of env (log_record (Synchronizing_directory local_dir) st)) []
             (log_record (Synchronizing_directory local_dir) st) of
        (Inl e, st1) \<Rightarrow>
          trace (snd (synchronize_directory env local_dir entries st)) =
            trace st @ Log (Synchronizing_directory local_dir) # idx
      | (Inr page_metadata, st1) \<Rightarrow>
          trace st1 = trace st @ Log (Synchronizing_directory local_dir) # idx \<and>
          trace (snd (synchronize_directory env local_dir entries st)) =
            trace st1 @ Log (Indexed_pages (length page_metadata)) # sync \<and>
          distinct (map fst page_metadata) \<and>
          prefix (synchronized_paths sync) (map fst page_metadata) \<and>
          (\<forall>u. fst (synchronize_directory env local_dir entries st) = Inr u \<longrightarrow>
             synchronized_paths sync = map fst page_metadata))"
proof -
  let ?st0 = "log_record (Synchronizing_directory local_dir) st"
  let ?root = "root_id_of env ?st0"
  obtain r1 st1 where g: "index_directory env local_dir entries ?root [] ?st0 = (r1, st1)"
    by (cases "index_directory env local_dir entries ?root [] ?st0") auto
  from index_directory_events [of env local_dir entries ?root "[]" ?st0] g
  obtain idx where idx: "trace st1 = trace st @ Log (Synchronizing_directory local_dir) # idx"
    "list_all index_event idx"
    and d: "\<forall>pm'. r1 = Inr pm' \<longrightarrow> distinct (map fst pm')"
    by (auto simp: log_record_def)
  show ?thesis
  proof (cases r1)
    case (Inl e)
    with g have "synchronize_directory env local_dir entries st = (Inl e, st1)"
      by (simp add: synchronize_directory_def Let_def)
    with g Inl idx show ?thesis
      by (intro exI [of _ idx] exI [of _ "[]"]) simp
  next
    case (Inr pm)
    let ?st2 = "log_record (Indexed_pages (length pm)) st1"
    have eq: "synchronize_directory env local_dir entries st = synchronize_pages env (map fst pm) pm ?st2"
      using g Inr by (simp add: synchronize_directory_def Let_def)
    from synchronize_pages_events [of env "map fst pm" pm ?st2]
    obtain sync where sync: "trace (snd (synchronize_pages env (map fst pm) pm ?st2)) = trace ?st2 @ sync"
      "list_all sync_event sync" "prefix (synchronized_paths sync) (map fst pm)"
      "\<forall>u. fst (synchronize_pages env (map fst pm) pm ?st2) = Inr u \<longrightarrow> synchronized_paths sync = map fst pm"
      by blast
    from sync(1) have "trace (snd (synchronize_pages env (map fst pm) pm ?st2)) =
        trace st1 @ Log (Indexed_pages (length pm)) # sync"
      by (simp add: log_record_def)
    with g Inr idx d sync show ?thesis unfolding eq
      by (intro exI [of _ idx] exI [of _ sync]) simp
  qed
qed


lemmas sync_simps =
  synchronize_directory_def root_id_of_def synchronize_page_priv_def switch_space_def
  update_document_def upload_attachment_def update_page_def demo_load_document_def

theorem C9_witness:
  "synchronized_paths (trace (snd (synchronize_directory demo_env [''docs'']
      [File_entry ''a.md'', File_entry ''index.md'']
      (demo_state [[''docs'', ''index.md''] \<mapsto> ''<!-- confluence-page-id: 7 -->\<newline>Home'',
                   [''docs'', ''a.md''] \<mapsto> ''<!-- confluence-page-id: 9 -->\<newline>Body''])))) =
     [[''docs'', ''index.md''], [''docs'', ''a.md'']] \<and>
   remote_calls (trace (snd (synchronize_directory demo_env [''docs'']
      [File_entry ''a.md'', File_entry ''index.md'']
      (demo_state [[''docs'', ''index.md''] \<mapsto> ''<!-- confluence-page-id: 7 -->\<newline>Home'',
                   [''docs'', ''a.md''] \<mapsto> ''<!-- confluence-page-id: 9 -->\<newline>Body''])))) =
     [GetPage ''7'' None, GetPage ''9'' None,
      UploadAttachment ''7'' [''docs'', ''figure.png''] ''figure.png'' None,
      UploadAttachment ''7'' [''EMB'', ''chart''] ''chart'' (Some ''<svg/>''),
      UpdatePage ''7'' ''\<newline>Home'',
      UploadAttachment ''9'' [''docs'', ''figure.png''] ''figure.png'' None,
      UploadAttachment ''9'' [''EMB'', ''chart''] ''chart'' (Some ''<svg/>''),
      UpdatePage ''9'' ''\<newline>Body'']"
proof -
  let ?entries = "[File_entry ''a.md'', File_entry ''index.md'']"
  let ?st = "demo_state [[''docs'', ''index.md''] \<mapsto> ''<!-- confluence-page-id: 7 -->\<newline>Home'',
                   [''docs'', ''a.md''] \<mapsto> ''<!-- confluence-page-id: 9 -->\<newline>Body'']"
  define I where "I = index_directory demo_env [''docs''] ?entries
             (root_id_of demo_env (log_record (Synchronizing_directory [''docs'']) ?st)) []
             (log_record (Synchronizing_directory [''docs'']) ?st)"
  define R where "R = synchronize_directory demo_env [''docs''] ?entries ?st"
  have ok: "fst R = Inr ()"
    unfolding R_def by (simp add: demo_simps sync_simps)
  have keys: "\<exists>pm. fst I = Inr pm \<and> map fst pm = [[''docs'', ''index.md''], [''docs'', ''a.md'']]"
    unfolding I_def by (simp add: demo_simps sync_simps)
  have quiet: "synchronized_paths (trace (snd I)) = []"
    unfolding I_def by (simp add: demo_simps sync_simps)
  have calls: "remote_calls (trace (snd R)) =
     [GetPage ''7'' None, GetPage ''9'' None,
      UploadAttachment ''7'' [''docs'', ''figure.png''] ''figure.png'' None,
      UploadAttachment ''7'' [''EMB'', ''chart''] ''chart'' (Some ''<svg/>''),
      UpdatePage ''7'' ''\<newline>Home'',
      UploadAttachment ''9'' [''docs'', ''figure.png''] ''figure.png'' None,
      UploadAttachment ''9'' [''EMB'', ''chart''] ''chart'' (Some ''<svg/>''),
      UpdatePage ''9'' ''\<newline>Body'']"
    unfolding R_def by (simp add: demo_simps sync_simps)
  from keys obtain pm st1 where I: "I = (Inr pm, st1)"
    and pm: "map fst pm = [[''docs'', ''index.md''], [''docs'', ''a.md'']]"
    by (cases I) auto
  from C9_index_then_synchronize [of demo_env "[''docs'']" ?entries ?st, folded I_def R_def]
  obtain sync where "trace (snd R) = trace st1 @ Log (Indexed_pages (length pm)) # sync"
    and "synchronized_paths sync = map fst pm"
    unfolding I using ok by auto
  with quiet I pm have "synchronized_paths (trace (snd R)) = [[''docs'', ''index.md''], [''docs'', ''a.md'']]"
    by (simp add: synchronized_paths_append)
  with calls show ?thesis unfolding R_def by (simp only: simp_thms)
qed

end
